theory Spec2Isabelle
  imports Complex_Main
begin

section \<open>Paths\<close>

text \<open>
  The lock file's name is built with \<^verbatim>\<open>os.path.split\<close> and \<^verbatim>\<open>os.path.join\<close>.
  The functions below follow the POSIX flavour of \<^verbatim>\<open>os.path\<close> (separator \<^verbatim>\<open>/\<close>),
  the one the specification writes its paths in.
\<close>

definition sep :: char where
  "sep = CHR ''/''"

definition rstrip_sep :: "string \<Rightarrow> string" where
  "rstrip_sep p = rev (dropWhile (\<lambda>c. c = sep) (rev p))"

text \<open>
  \<^verbatim>\<open>i = p.rfind(sep) + 1; head, tail = p[:i], p[i:]\<close>;
  \<^verbatim>\<open>if head and head != sep*len(head): head = head.rstrip(sep)\<close>.
\<close>

definition path_split :: "string \<Rightarrow> string \<times> string" where
  "path_split p =
     (let tail = rev (takeWhile (\<lambda>c. c \<noteq> sep) (rev p));
          head = take (length p - length tail) p
      in (if head \<noteq> [] \<and> head \<noteq> replicate (length head) sep
          then rstrip_sep head else head, tail))"

text \<open>
  \<^verbatim>\<open>if b.startswith(sep): path = b\<close>,
  \<^verbatim>\<open>elif not path or path.endswith(sep): path += b\<close>,
  \<^verbatim>\<open>else: path += sep + b\<close>.
\<close>

definition path_join :: "string \<Rightarrow> string \<Rightarrow> string" where
  "path_join a b =
     (if b \<noteq> [] \<and> hd b = sep then b
      else if a = [] \<or> last a = sep then a @ b
      else a @ sep # b)"

section \<open>The operating system\<close>

datatype errno = EEXIST | ENOENT | EACCES | EBADF | EOTHER nat

datatype exn =
    OSError errno
  | DirLockException string
  | ValueError string
  | OverflowError string
  | AttributeError string
  | OtherError string

datatype syscall = SysOpen string | SysClose nat | SysUnlink string | SysSleep rat

text \<open>
  The part of the machine the lock talks to: the files that exist, the paths at which
  the file system refuses to add or remove an entry, each with the reason (its directory
  is missing, or not writable), the descriptors this process has open with the path each
  was opened on, the clock, and the system calls made so far.
\<close>

record world =
  files :: "string set"
  denied :: "(string \<times> errno) list"
  fdtab :: "(nat \<times> string) list"
  clock :: rat
  trace :: "syscall list"

definition fresh_fd :: "nat list \<Rightarrow> nat" where
  "fresh_fd ds = Suc (foldr max ds 0)"

text \<open>
  \<^verbatim>\<open>os.open(path, O_CREAT|O_EXCL|O_RDWR)\<close>: fails with \<open>EEXIST\<close> when the path
  exists, with the file system's own reason when it refuses the new entry, and otherwise
  creates the file and returns a descriptor that was not in use.
\<close>

definition os_open :: "string \<Rightarrow> world \<Rightarrow> (errno + nat) \<times> world" where
  "os_open p w =
     (let w' = w\<lparr>trace := trace w @ [SysOpen p]\<rparr> in
      if p \<in> files w then (Inl EEXIST, w')
      else case map_of (denied w) p of
             Some e \<Rightarrow> (Inl e, w')
           | None \<Rightarrow>
               (let d = fresh_fd (map fst (fdtab w))
                in (Inr d, w'\<lparr>files := insert p (files w), fdtab := (d, p) # fdtab w\<rparr>)))"

text \<open>\<^verbatim>\<open>os.close(fd)\<close>: \<open>EBADF\<close> when the descriptor is not open.\<close>

definition os_close :: "nat \<Rightarrow> world \<Rightarrow> (errno + unit) \<times> world" where
  "os_close d w =
     (let w' = w\<lparr>trace := trace w @ [SysClose d]\<rparr> in
      case map_of (fdtab w) d of
        None \<Rightarrow> (Inl EBADF, w')
      | Some p \<Rightarrow> (Inr (), w'\<lparr>fdtab := filter (\<lambda>(k, q). k \<noteq> d) (fdtab w)\<rparr>))"

text \<open>
  \<^verbatim>\<open>os.unlink(path)\<close>: \<open>ENOENT\<close> when there is no such file, the file system's own
  reason when it refuses to remove the entry.
\<close>

definition os_unlink :: "string \<Rightarrow> world \<Rightarrow> (errno + unit) \<times> world" where
  "os_unlink p w =
     (let w' = w\<lparr>trace := trace w @ [SysUnlink p]\<rparr> in
      if p \<notin> files w then (Inl ENOENT, w')
      else case map_of (denied w) p of
             Some e \<Rightarrow> (Inl e, w')
           | None \<Rightarrow> (Inr (), w'\<lparr>files := files w - {p}\<rparr>))"

text \<open>
  A Python number as the lock uses it for \<open>timeout\<close> and \<open>delay\<close>: a finite value
  (an \<^verbatim>\<open>int\<close> or a finite \<^verbatim>\<open>float\<close>, taken as an exact rational) or one of the floats
  \<^verbatim>\<open>inf\<close>, \<^verbatim>\<open>-inf\<close>, \<^verbatim>\<open>nan\<close>.
\<close>

datatype pynum = PyNum rat | PyInf | PyNegInf | PyNaN

text \<open>\<^verbatim>\<open>not x\<close>: only zero is false; \<^verbatim>\<open>inf\<close> and \<^verbatim>\<open>nan\<close> are true.\<close>

definition py_not :: "pynum \<Rightarrow> bool" where
  "py_not x \<longleftrightarrow> x = PyNum 0"

text \<open>\<^verbatim>\<open>a >= x\<close> for a finite \<open>a\<close>: every comparison with \<^verbatim>\<open>nan\<close> is false.\<close>

fun py_ge :: "rat \<Rightarrow> pynum \<Rightarrow> bool" where
  "py_ge a (PyNum b) = (b \<le> a)"
| "py_ge a PyInf = False"
| "py_ge a PyNegInf = True"
| "py_ge a PyNaN = False"

definition time_time :: "world \<Rightarrow> rat" where
  "time_time w = clock w"

text \<open>
  \<^verbatim>\<open>time.sleep(secs)\<close>, as CPython 3 does it on POSIX. The argument is first converted to a
  signed 64-bit count of nanoseconds, rounding away from zero: \<^verbatim>\<open>nan\<close> raises
  \<open>ValueError\<close>, a count that does not fit (from about 9.2e9 seconds, \<^verbatim>\<open>inf\<close>
  included) raises \<open>OverflowError\<close>. A negative count then raises \<open>ValueError\<close>.
  Otherwise the clock advances by \<open>secs\<close>, and \<open>env\<close> is what the rest of the machine
  (other processes, other holders of the lock, time passing beyond what was asked) does
  meanwhile.
\<close>

definition sleep_ns :: "rat \<Rightarrow> int" where
  "sleep_ns d = (if 0 \<le> d then \<lceil>d * 10 ^ 9\<rceil> else \<lfloor>d * 10 ^ 9\<rfloor>)"

definition time_sleep :: "(world \<Rightarrow> world) \<Rightarrow> pynum \<Rightarrow> world \<Rightarrow> (exn + unit) \<times> world" where
  "time_sleep env secs w =
     (case secs of
        PyNaN \<Rightarrow> (Inl (ValueError ''Invalid value NaN (not a number)''), w)
      | PyInf \<Rightarrow> (Inl (OverflowError ''timestamp too large to convert to C _PyTime_t''), w)
      | PyNegInf \<Rightarrow> (Inl (OverflowError ''timestamp too large to convert to C _PyTime_t''), w)
      | PyNum d \<Rightarrow>
          if sleep_ns d < - (2 ^ 63) \<or> 2 ^ 63 - 1 < sleep_ns d then
            (Inl (OverflowError ''timestamp too large to convert to C _PyTime_t''), w)
          else if d < 0 then (Inl (ValueError ''sleep length must be non-negative''), w)
          else (Inr (), env (w\<lparr>clock := clock w + d, trace := trace w @ [SysSleep d]\<rparr>)))"

section \<open>DirLock\<close>

text \<open>
  The attributes of an instance. \<open>fd\<close> is absent (\<open>None\<close>) until the first successful
  \<open>acquire\<close> assigns it. \<open>timeout\<close> and \<open>delay\<close> are numbers of seconds; the
  clock's readings are finite and taken as exact rationals.
\<close>

record DirLock =
  is_locked :: bool
  lockfile :: string
  directory :: string
  timeout :: pynum
  delay :: pynum
  fd :: "nat option"

definition DirLock_init :: "string \<Rightarrow> pynum \<Rightarrow> pynum \<Rightarrow> DirLock" where
  "DirLock_init dir tmo dly =
     \<lparr> is_locked = False,
       lockfile = path_join dir (snd (path_split dir) @ ''.lock''),
       directory = dir,
       timeout = tmo,
       delay = dly,
       fd = None \<rparr>"

text \<open>The defaults of the constructor: \<^verbatim>\<open>timeout=10, delay=.05\<close>.\<close>

definition DirLock_default :: "string \<Rightarrow> DirLock" where
  "DirLock_default dir = DirLock_init dir (PyNum 10) (PyNum (1 / 20))"

text \<open>
  The \<^verbatim>\<open>while True\<close> loop of \<open>acquire\<close>, one iteration per unit of fuel; \<open>None\<close>
  is a loop that has not returned within the fuel given. \<open>start\<close> is the time read
  before the loop. \<^verbatim>\<open>'...{}'.format(self.directory)\<close> appends the directory to the
  message.
\<close>

fun acquire_loop ::
  "(world \<Rightarrow> world) \<Rightarrow> nat \<Rightarrow> rat \<Rightarrow> DirLock \<Rightarrow> world \<Rightarrow> ((exn + unit) \<times> DirLock \<times> world) option"
where
  "acquire_loop env 0 start self w = None"
| "acquire_loop env (Suc n) start self w =
     (case os_open (lockfile self) w of
        (Inr d, w1) \<Rightarrow> Some (Inr (), self\<lparr>fd := Some d, is_locked := True\<rparr>, w1)
      | (Inl e, w1) \<Rightarrow>
          if e \<noteq> EEXIST then Some (Inl (OSError e), self, w1)
          else if py_not (timeout self) then
            Some (Inl (DirLockException (''Could not acquire lock on '' @ directory self)), self, w1)
          else if py_ge (time_time w1 - start) (timeout self) then
            Some (Inl (DirLockException ''Timeout occurred.''), self, w1)
          else (case time_sleep env (delay self) w1 of
                  (Inl x, w2) \<Rightarrow> Some (Inl x, self, w2)
                | (Inr u, w2) \<Rightarrow> acquire_loop env n start self w2))"

definition acquire ::
  "(world \<Rightarrow> world) \<Rightarrow> nat \<Rightarrow> DirLock \<Rightarrow> world \<Rightarrow> ((exn + unit) \<times> DirLock \<times> world) option"
where
  "acquire env n self w = acquire_loop env n (time_time w) self w"

text \<open>
  \<open>release\<close>: \<^verbatim>\<open>os.close(self.fd)\<close>, \<^verbatim>\<open>os.unlink(self.lockfile)\<close>,
  \<^verbatim>\<open>self.is_locked = False\<close>, each reached only when the one before did not raise.
\<close>

definition release :: "DirLock \<Rightarrow> world \<Rightarrow> (exn + unit) \<times> DirLock \<times> world" where
  "release self w =
     (if is_locked self then
        (case fd self of
           None \<Rightarrow> (Inl (AttributeError ''fd''), self, w)
         | Some d \<Rightarrow>
             (case os_close d w of
                (Inl e, w1) \<Rightarrow> (Inl (OSError e), self, w1)
              | (Inr u, w1) \<Rightarrow>
                  (case os_unlink (lockfile self) w1 of
                     (Inl e, w2) \<Rightarrow> (Inl (OSError e), self, w2)
                   | (Inr v, w2) \<Rightarrow> (Inr (), self\<lparr>is_locked := False\<rparr>, w2))))
      else (Inr (), self, w))"

text \<open>
  What the context-manager methods return: \<open>__enter__\<close> returns the instance,
  \<open>__exit__\<close> falls off its end and returns \<open>None\<close>.
\<close>

datatype pyval = PyNone | PyBool bool | PySelf

fun truthy :: "pyval \<Rightarrow> bool" where
  "truthy PyNone = False"
| "truthy (PyBool b) = b"
| "truthy PySelf = True"

definition DirLock_enter ::
  "(world \<Rightarrow> world) \<Rightarrow> nat \<Rightarrow> DirLock \<Rightarrow> world \<Rightarrow> ((exn + pyval) \<times> DirLock \<times> world) option"
where
  "DirLock_enter env n self w =
     (if \<not> is_locked self then
        (case acquire env n self w of
           None \<Rightarrow> None
         | Some (Inl e, self', w') \<Rightarrow> Some (Inl e, self', w')
         | Some (Inr u, self', w') \<Rightarrow> Some (Inr PySelf, self', w'))
      else Some (Inr PySelf, self, w))"

text \<open>
  \<open>__exit__(type, value, traceback)\<close>: the argument is the failure of the block, if
  any; the method does not look at it.
\<close>

definition DirLock_exit :: "exn option \<Rightarrow> DirLock \<Rightarrow> world \<Rightarrow> (exn + pyval) \<times> DirLock \<times> world" where
  "DirLock_exit exc self w =
     (if is_locked self then
        (case release self w of
           (Inl e, self', w') \<Rightarrow> (Inl e, self', w')
         | (Inr u, self', w') \<Rightarrow> (Inr PyNone, self', w'))
      else (Inr PyNone, self, w))"

text \<open>The body of \<open>__del__\<close>.\<close>

definition DirLock_del :: "DirLock \<Rightarrow> world \<Rightarrow> (exn + unit) \<times> DirLock \<times> world" where
  "DirLock_del self w = release self w"

text \<open>
  Destruction of an instance: the interpreter calls \<open>__del__\<close>; an exception that
  \<open>__del__\<close> raises is reported as unraisable and discarded, never raised in the code
  that dropped the instance. The instance is gone afterwards, the machine stays.
\<close>

definition destroy :: "DirLock \<Rightarrow> world \<Rightarrow> (exn + unit) \<times> world" where
  "destroy self w = (case DirLock_del self w of (r, self', w') \<Rightarrow> (Inr (), w'))"

text \<open>
  The \<^verbatim>\<open>with\<close> statement, as \<^verbatim>\<open>tests/test.py\<close> uses it: \<open>__enter__\<close>, then the
  block (given what \<open>__enter__\<close> returned), then \<open>__exit__\<close> with the block's failure
  if it raised. A failure of the block is raised again unless \<open>__exit__\<close> returns a true
  value; a failure of \<open>__exit__\<close> itself takes its place.
\<close>

definition with_stmt ::
  "(world \<Rightarrow> world) \<Rightarrow> nat \<Rightarrow> DirLock \<Rightarrow>
   (pyval \<Rightarrow> DirLock \<Rightarrow> world \<Rightarrow> (exn + unit) \<times> DirLock \<times> world) \<Rightarrow>
   world \<Rightarrow> ((exn + unit) \<times> DirLock \<times> world) option"
where
  "with_stmt env n self body w =
     (case DirLock_enter env n self w of
        None \<Rightarrow> None
      | Some (Inl e, s1, w1) \<Rightarrow> Some (Inl e, s1, w1)
      | Some (Inr v, s1, w1) \<Rightarrow>
          (case body v s1 w1 of
             (Inr u, s2, w2) \<Rightarrow>
               (case DirLock_exit None s2 w2 of
                  (Inl e', s3, w3) \<Rightarrow> Some (Inl e', s3, w3)
                | (Inr r, s3, w3) \<Rightarrow> Some (Inr (), s3, w3))
           | (Inl e, s2, w2) \<Rightarrow>
               (case DirLock_exit (Some e) s2 w2 of
                  (Inl e', s3, w3) \<Rightarrow> Some (Inl e', s3, w3)
                | (Inr r, s3, w3) \<Rightarrow>
                    if truthy r then Some (Inr (), s3, w3) else Some (Inl e, s3, w3))))"

section \<open>The turns of the loop\<close>

text \<open>
  The machine as the next turn of the loop in \<open>acquire\<close> finds it, after a create that
  failed and the sleep that followed; and the machine at the start of turn \<open>k\<close> of a
  call that began on \<open>w\<close> (turn 0 is the first).
\<close>

definition next_try :: "(world \<Rightarrow> world) \<Rightarrow> DirLock \<Rightarrow> world \<Rightarrow> world" where
  "next_try env self w = snd (time_sleep env (delay self) (snd (os_open (lockfile self) w)))"

primrec turn_world :: "(world \<Rightarrow> world) \<Rightarrow> DirLock \<Rightarrow> nat \<Rightarrow> world \<Rightarrow> world" where
  "turn_world env self 0 w = w"
| "turn_world env self (Suc k) w = turn_world env self k (next_try env self w)"

section \<open>The lock as a transition system\<close>

text \<open>
  The invariant of the data model: while \<open>is_locked\<close> is set, the lock file exists and
  the stored handle is an open descriptor of it.
\<close>

definition lock_inv :: "DirLock \<Rightarrow> world \<Rightarrow> bool" where
  "lock_inv self w \<longleftrightarrow>
     (is_locked self \<longrightarrow>
        lockfile self \<in> files w \<and>
        (case fd self of None \<Rightarrow> False
         | Some d \<Rightarrow> map_of (fdtab w) d = Some (lockfile self)))"

text \<open>
  What the other actors on the machine may do while this process sleeps or between its
  calls: they cannot touch this process's descriptors, they leave alone what the file
  system permits, and they do not delete a file that this process holds open (no process
  deletes a lock file it does not own). They may create and delete any other file,
  the lock file of another holder included, and let any amount of time pass.
\<close>

definition tame :: "(world \<Rightarrow> world) \<Rightarrow> bool" where
  "tame env \<longleftrightarrow>
     (\<forall>w. fdtab (env w) = fdtab w \<and> denied (env w) = denied w \<and>
          (\<forall>(d, p) \<in> set (fdtab w). p \<in> files w \<longrightarrow> p \<in> files (env w)))"

text \<open>
  The states an instance and its machine can be in: construction on any machine, then
  any sequence of calls that return, interleaved with steps of the other actors.
\<close>

inductive reach :: "DirLock \<times> world \<Rightarrow> bool" where
  construct: "reach (DirLock_init dir tmo dly, w)"
| do_acquire:
    "reach (s, w) \<Longrightarrow> tame env \<Longrightarrow> acquire env n s w = Some (r, s', w') \<Longrightarrow> reach (s', w')"
| do_release:
    "reach (s, w) \<Longrightarrow> release s w = (r, s', w') \<Longrightarrow> reach (s', w')"
| do_enter:
    "reach (s, w) \<Longrightarrow> tame env \<Longrightarrow> DirLock_enter env n s w = Some (v, s', w') \<Longrightarrow> reach (s', w')"
| do_exit:
    "reach (s, w) \<Longrightarrow> DirLock_exit x s w = (v, s', w') \<Longrightarrow> reach (s', w')"
| others:
    "reach (s, w) \<Longrightarrow> tame env \<Longrightarrow> reach (s, env w)"

text \<open>
  The invariant that the proofs carry along: on top of \<open>lock_inv\<close>, the file system
  still permits removing the lock file that it permitted creating.
\<close>

definition strong_inv :: "DirLock \<Rightarrow> world \<Rightarrow> bool" where
  "strong_inv self w \<longleftrightarrow>
     lock_inv self w \<and> (is_locked self \<longrightarrow> map_of (denied w) (lockfile self) = None)"

section \<open>Example states\<close>

text \<open>
  A machine with no files and nothing refused, a lock on \<^verbatim>\<open>/srv/job\<close> with the
  constructor's defaults, and the state right after its \<open>acquire\<close>.
\<close>

definition ex_world :: world where
  "ex_world = \<lparr> files = {}, denied = [], fdtab = [], clock = 0, trace = [] \<rparr>"

definition ex_lock :: DirLock where
  "ex_lock = DirLock_default ''/srv/job''"

definition ex_held :: DirLock where
  "ex_held = ex_lock\<lparr>fd := Some 1, is_locked := True\<rparr>"

definition ex_held_world :: world where
  "ex_held_world =
     ex_world\<lparr>files := {''/srv/job/job.lock''}, fdtab := [(1, ''/srv/job/job.lock'')],
       trace := [SysOpen ''/srv/job/job.lock'']\<rparr>"

text \<open>The directory does not exist; the directory is read-only; another holder has the lock.\<close>

definition ex_nodir :: world where
  "ex_nodir = ex_world\<lparr>denied := [(''/srv/job/job.lock'', ENOENT)]\<rparr>"

definition ex_readonly :: world where
  "ex_readonly = ex_world\<lparr>denied := [(''/srv/job/job.lock'', EACCES)]\<rparr>"

definition ex_taken :: world where
  "ex_taken = ex_world\<lparr>files := {''/srv/job/job.lock''}\<rparr>"

text \<open>The held lock after another actor has removed the lock file.\<close>

definition ex_stolen :: world where
  "ex_stolen = ex_held_world\<lparr>files := files ex_held_world - {''/srv/job/job.lock''}\<rparr>"

text \<open>A block that deletes the lock file itself and then fails.\<close>

definition ex_body :: "pyval \<Rightarrow> DirLock \<Rightarrow> world \<Rightarrow> (exn + unit) \<times> DirLock \<times> world" where
  "ex_body v s w = (Inl (OtherError ''boom''), s, snd (os_unlink (lockfile s) w))"

text \<open>A block that only fails.\<close>

definition ex_failing :: "pyval \<Rightarrow> DirLock \<Rightarrow> world \<Rightarrow> (exn + unit) \<times> DirLock \<times> world" where
  "ex_failing v s w = (Inl (OtherError ''boom''), s, w)"

text \<open>A lock with no timeout, and one with a negative delay.\<close>

definition ex_zero :: DirLock where
  "ex_zero = DirLock_init ''/srv/job'' (PyNum 0) (PyNum (1 / 20))"

definition ex_hasty :: DirLock where
  "ex_hasty = DirLock_init ''/srv/job'' (PyNum 10) (PyNum (- 1))"

text \<open>A lock that gives up after a tenth of a second, polling every twentieth.\<close>

definition ex_quick :: DirLock where
  "ex_quick = DirLock_init ''/srv/job'' (PyNum (1 / 10)) (PyNum (1 / 20))"

text \<open>
  Held locks with a delay of 1e10 seconds, with a delay of \<^verbatim>\<open>nan\<close>, and with a timeout
  of \<^verbatim>\<open>inf\<close>.
\<close>

definition ex_huge :: DirLock where
  "ex_huge = ex_held\<lparr>delay := PyNum (10 ^ 10)\<rparr>"

definition ex_nan :: DirLock where
  "ex_nan = ex_held\<lparr>delay := PyNaN\<rparr>"

definition ex_patient :: DirLock where
  "ex_patient = ex_held\<lparr>timeout := PyInf\<rparr>"

text \<open>The held lock on a directory that has since been made read-only.\<close>

definition ex_refused :: world where
  "ex_refused = ex_held_world\<lparr>denied := [(''/srv/job/job.lock'', EACCES)]\<rparr>"

text \<open>
  An actor that sets the wall clock back to 0, and another that deletes the lock file,
  whoever holds it.
\<close>

definition ex_reset :: "world \<Rightarrow> world" where
  "ex_reset w = w\<lparr>clock := 0\<rparr>"

definition ex_thief :: "world \<Rightarrow> world" where
  "ex_thief w = w\<lparr>files := files w - {''/srv/job/job.lock''}\<rparr>"


section \<open>System calls\<close>

lemma os_open_failed:
  "fst (os_open p w) = Inl e \<Longrightarrow> os_open p w = (Inl e, w\<lparr>trace := trace w @ [SysOpen p]\<rparr>)"
  by (auto simp: os_open_def Let_def split: if_splits option.splits)

lemma os_open_exists:
  "p \<in> files w \<Longrightarrow> os_open p w = (Inl EEXIST, w\<lparr>trace := trace w @ [SysOpen p]\<rparr>)"
  by (simp add: os_open_def Let_def)

lemma os_open_created:
  "p \<notin> files w \<Longrightarrow> map_of (denied w) p = None \<Longrightarrow>
   os_open p w =
     (Inr (fresh_fd (map fst (fdtab w))),
      w\<lparr>trace := trace w @ [SysOpen p], files := insert p (files w),
        fdtab := (fresh_fd (map fst (fdtab w)), p) # fdtab w\<rparr>)"
  by (simp add: os_open_def Let_def)

lemma os_open_succeeded:
  "fst (os_open p w) = Inr d \<Longrightarrow> p \<notin> files w \<and> map_of (denied w) p = None"
  by (auto simp: os_open_def Let_def split: if_splits option.splits)

lemma foldr_max_ge: "d \<in> set ds \<Longrightarrow> d \<le> foldr max ds (0::nat)"
  by (induction ds) auto

lemma fresh_fd_unused: "fresh_fd ds \<notin> set ds"
proof
  assume "fresh_fd ds \<in> set ds"
  then have "fresh_fd ds \<le> foldr max ds 0" by (rule foldr_max_ge)
  then show False by (simp add: fresh_fd_def)
qed

lemma close_fresh: "filter (\<lambda>(k, q). k \<noteq> fresh_fd (map fst tab)) tab = tab"
proof -
  have "fst x \<noteq> fresh_fd (map fst tab)" if "x \<in> set tab" for x
    using that fresh_fd_unused [of "map fst tab"] by (metis image_eqI set_map)
  then show ?thesis by (simp add: filter_id_conv case_prod_unfold)
qed

lemma closed_fd_gone: "map_of (filter (\<lambda>(k, q). k \<noteq> d) tab) d = None"
  by (induction tab) auto

lemma sleep_failed: "fst (time_sleep env secs w) = Inl x \<Longrightarrow> time_sleep env secs w = (Inl x, w)"
  by (cases secs) (auto simp: time_sleep_def split: if_splits)

lemma sleep_slept:
  assumes "fst (time_sleep env secs w) = Inr u"
  shows "\<exists>d. secs = PyNum d \<and> 0 \<le> d \<and>
             time_sleep env secs w
               = (Inr (), env (w\<lparr>clock := clock w + d, trace := trace w @ [SysSleep d]\<rparr>))"
  using assms by (cases secs) (auto simp: time_sleep_def split: if_splits)

lemma sleep_accepted:
  assumes "0 \<le> d" and "sleep_ns d \<le> 2 ^ 63 - 1"
  shows "time_sleep env (PyNum d) w
           = (Inr (), env (w\<lparr>clock := clock w + d, trace := trace w @ [SysSleep d]\<rparr>))"
proof -
  from assms(1) have "0 \<le> d * 10 ^ 9" by simp
  then have "0 \<le> \<lceil>d * 10 ^ 9\<rceil>" by (simp add: zero_le_ceiling)
  with assms(1) have "0 \<le> sleep_ns d" by (simp add: sleep_ns_def)
  then have "\<not> sleep_ns d < - (2 ^ 63)" by simp
  with assms show ?thesis by (simp add: time_sleep_def)
qed

section \<open>One turn of the loop\<close>

lemma loop_retry:
  assumes "fst (os_open (lockfile self) w) = Inl EEXIST"
    and "\<not> py_not (timeout self)"
    and "\<not> py_ge (time_time w - start) (timeout self)"
    and "fst (time_sleep env (delay self) (snd (os_open (lockfile self) w))) = Inr u"
  shows "acquire_loop env (Suc n) start self w
           = acquire_loop env n start self (next_try env self w)"
proof -
  let ?w1 = "w\<lparr>trace := trace w @ [SysOpen (lockfile self)]\<rparr>"
  from assms(1) have o: "os_open (lockfile self) w = (Inl EEXIST, ?w1)" by (rule os_open_failed)
  from assms(4) o obtain w2 where s: "time_sleep env (delay self) ?w1 = (Inr (), w2)"
    by (cases "time_sleep env (delay self) ?w1") auto
  from assms(2,3) o s show ?thesis by (simp add: next_try_def time_time_def)
qed

lemma loop_cases:
  assumes "acquire_loop env (Suc n) start self w = Some (r, s', w')"
  shows "(\<exists>d. os_open (lockfile self) w = (Inr d, w') \<and> r = Inr ()
              \<and> s' = self\<lparr>fd := Some d, is_locked := True\<rparr>)
       \<or> (\<exists>x. r = Inl x \<and> s' = self \<and> w' = w\<lparr>trace := trace w @ [SysOpen (lockfile self)]\<rparr>)
       \<or> (fst (os_open (lockfile self) w) = Inl EEXIST
          \<and> (\<exists>d. 0 \<le> d \<and> next_try env self w
                 = env (w\<lparr>trace := trace w @ [SysOpen (lockfile self)], clock := clock w + d,
                          trace := trace w @ [SysOpen (lockfile self), SysSleep d]\<rparr>))
          \<and> acquire_loop env n start self (next_try env self w) = Some (r, s', w'))"
proof (cases "fst (os_open (lockfile self) w)")
  case (Inr d)
  then obtain w1 where "os_open (lockfile self) w = (Inr d, w1)"
    by (cases "os_open (lockfile self) w") auto
  with assms show ?thesis by auto
next
  case (Inl e)
  let ?w1 = "w\<lparr>trace := trace w @ [SysOpen (lockfile self)]\<rparr>"
  from Inl have o: "os_open (lockfile self) w = (Inl e, ?w1)" by (rule os_open_failed)
  show ?thesis
  proof (cases "e \<noteq> EEXIST \<or> py_not (timeout self)
                \<or> py_ge (time_time ?w1 - start) (timeout self)")
    case True
    with assms o have "(\<exists>x. r = Inl x) \<and> s' = self \<and> w' = ?w1" by (auto split: if_splits)
    then show ?thesis by blast
  next
    case False
    show ?thesis
    proof (cases "fst (time_sleep env (delay self) ?w1)")
      case (Inl x)
      then have "time_sleep env (delay self) ?w1 = (Inl x, ?w1)" by (rule sleep_failed)
      with assms o False have "r = Inl x \<and> s' = self \<and> w' = ?w1" by auto
      then show ?thesis by blast
    next
      case (Inr u)
      from sleep_slept [OF this] obtain d where d: "0 \<le> d"
        and s: "time_sleep env (delay self) ?w1
                  = (Inr (), env (?w1\<lparr>clock := clock ?w1 + d, trace := trace ?w1 @ [SysSleep d]\<rparr>))"
        by blast
      from s o have nt: "next_try env self w
          = env (w\<lparr>trace := trace w @ [SysOpen (lockfile self)], clock := clock w + d,
                   trace := trace w @ [SysOpen (lockfile self), SysSleep d]\<rparr>)"
        by (simp add: next_try_def)
      from assms o False s have "acquire_loop env n start self (next_try env self w) = Some (r, s', w')"
        by (simp add: next_try_def)
      with False o d nt show ?thesis by auto
    qed
  qed
qed

lemma loop_skip_turns:
  assumes "\<not> py_not (timeout self)"
  shows "(\<forall>j<k. fst (os_open (lockfile self) (turn_world env self j w)) = Inl EEXIST
              \<and> \<not> py_ge (time_time (turn_world env self j w) - start) (timeout self)
              \<and> fst (time_sleep env (delay self)
                       (snd (os_open (lockfile self) (turn_world env self j w)))) = Inr ())
         \<Longrightarrow> acquire_loop env (k + n) start self w
               = acquire_loop env n start self (turn_world env self k w)"
proof (induction k arbitrary: w)
  case 0
  then show ?case by simp
next
  case (Suc k)
  from Suc.prems have first: "fst (os_open (lockfile self) w) = Inl EEXIST"
    "\<not> py_ge (time_time w - start) (timeout self)"
    "fst (time_sleep env (delay self) (snd (os_open (lockfile self) w))) = Inr ()"
    by (auto dest: spec [of _ 0])
  have rest: "\<forall>j<k. fst (os_open (lockfile self) (turn_world env self j (next_try env self w)))
                  = Inl EEXIST
              \<and> \<not> py_ge (time_time (turn_world env self j (next_try env self w)) - start)
                    (timeout self)
              \<and> fst (time_sleep env (delay self)
                       (snd (os_open (lockfile self)
                              (turn_world env self j (next_try env self w))))) = Inr ()"
  proof (intro allI impI)
    fix j assume "j < k"
    then have "Suc j < Suc k" by simp
    with Suc.prems show "fst (os_open (lockfile self) (turn_world env self j (next_try env self w)))
                  = Inl EEXIST
              \<and> \<not> py_ge (time_time (turn_world env self j (next_try env self w)) - start)
                    (timeout self)
              \<and> fst (time_sleep env (delay self)
                       (snd (os_open (lockfile self)
                              (turn_world env self j (next_try env self w))))) = Inr ()"
      by (auto dest!: spec [of _ "Suc j"])
  qed
  have "acquire_loop env (Suc k + n) start self w
          = acquire_loop env (k + n) start self (next_try env self w)"
    using loop_retry [OF first(1) assms first(2,3)] by simp
  also have "\<dots> = acquire_loop env n start self (turn_world env self k (next_try env self w))"
    by (rule Suc.IH [OF rest])
  finally show ?case by simp
qed

section \<open>Failures of acquire\<close>

text \<open>
  C1. Whenever the exclusive create in \<open>acquire\<close> fails with an error other than
  \<open>EEXIST\<close>, the call ends at once with that very \<open>OSError\<close>: this holds at every
  turn of the loop (any start time, any fuel left) and so for the call itself, whatever
  \<open>timeout\<close> is. The instance is unchanged, and the machine has seen one \<open>open\<close> and
  no sleep.
\<close>

theorem acquire_io_error_immediate:
  assumes "fst (os_open (lockfile self) w) = Inl e" and "e \<noteq> EEXIST"
  shows "acquire_loop env (Suc n) start self w
           = Some (Inl (OSError e), self, w\<lparr>trace := trace w @ [SysOpen (lockfile self)]\<rparr>)
         \<and> acquire env (Suc n) self w
           = Some (Inl (OSError e), self, w\<lparr>trace := trace w @ [SysOpen (lockfile self)]\<rparr>)"
  using assms os_open_failed [OF assms(1)] by (simp add: acquire_def)

text \<open>In a read-only directory the default lock fails with \<open>EACCES\<close> on its first attempt.\<close>

theorem acquire_io_error_immediate_witness:
  "fst (os_open (lockfile ex_lock) ex_readonly) = Inl EACCES \<and> EACCES \<noteq> EEXIST
   \<and> timeout ex_lock = PyNum 10
   \<and> acquire id (Suc 0) ex_lock ex_readonly
       = Some (Inl (OSError EACCES), ex_lock,
               ex_readonly\<lparr>trace := trace ex_readonly @ [SysOpen (lockfile ex_lock)]\<rparr>)"
proof -
  have h: "fst (os_open (lockfile ex_lock) ex_readonly) = Inl EACCES" by code_simp
  have t: "timeout ex_lock = PyNum 10" by code_simp
  from acquire_io_error_immediate [OF h, of id 0 0] h t show ?thesis by simp
qed

text \<open>
  C2. With \<open>timeout = 0\<close>, when the first create of \<open>acquire\<close> fails because the lock
  file exists, the call fails with the exception of the zero-timeout branch. One unit of
  fuel is enough (the loop is not entered again), the instance is unchanged, and the
  machine has seen one \<open>open\<close> and no sleep.
\<close>

theorem acquire_zero_timeout:
  assumes "timeout self = PyNum 0" and "fst (os_open (lockfile self) w) = Inl EEXIST"
  shows "acquire env (Suc n) self w
           = Some (Inl (DirLockException (''Could not acquire lock on '' @ directory self)),
                   self, w\<lparr>trace := trace w @ [SysOpen (lockfile self)]\<rparr>)"
  using assms os_open_failed [OF assms(2)] by (simp add: acquire_def py_not_def)

theorem acquire_zero_timeout_witness:
  "timeout ex_zero = PyNum 0 \<and> fst (os_open (lockfile ex_zero) ex_taken) = Inl EEXIST
   \<and> acquire id (Suc 0) ex_zero ex_taken
       = Some (Inl (DirLockException ''Could not acquire lock on /srv/job''), ex_zero,
               ex_taken\<lparr>trace := [SysOpen ''/srv/job/job.lock'']\<rparr>)"
proof -
  have h1: "timeout ex_zero = PyNum 0" by code_simp
  have h2: "fst (os_open (lockfile ex_zero) ex_taken) = Inl EEXIST" by code_simp
  have d: "directory ex_zero = ''/srv/job''" "lockfile ex_zero = ''/srv/job/job.lock''"
    "trace ex_taken = []" by code_simp+
  from acquire_zero_timeout [OF h1 h2, of id 0] h1 h2 show ?thesis by (simp add: d)
qed

text \<open>
  C3. Take a call of \<open>acquire\<close> on \<open>w\<close> with \<open>timeout \<noteq> 0\<close>; the start it records
  is the time read on \<open>w\<close>. Suppose the call reaches turn \<open>k\<close> of its loop (every
  earlier turn found the lock file, had not timed out, and slept), and at turn \<open>k\<close> the
  create fails because the lock file exists while the time elapsed since the recorded start
  is at least \<open>timeout\<close>. Then the call fails with the timeout exception at that turn:
  the instance is unchanged, and the machine is the one turn \<open>k\<close> found plus that one
  \<open>open\<close>, with no further sleep and no further attempt.
\<close>

theorem acquire_timeout:
  assumes "timeout self \<noteq> PyNum 0"
    and "\<forall>j<k. fst (os_open (lockfile self) (turn_world env self j w)) = Inl EEXIST
              \<and> \<not> py_ge (time_time (turn_world env self j w) - time_time w) (timeout self)
              \<and> fst (time_sleep env (delay self)
                       (snd (os_open (lockfile self) (turn_world env self j w)))) = Inr ()"
    and "fst (os_open (lockfile self) (turn_world env self k w)) = Inl EEXIST"
    and "py_ge (time_time (turn_world env self k w) - time_time w) (timeout self)"
  shows "acquire env (k + Suc n) self w
           = Some (Inl (DirLockException ''Timeout occurred.''), self,
                   (turn_world env self k w)
                     \<lparr>trace := trace (turn_world env self k w) @ [SysOpen (lockfile self)]\<rparr>)"
proof -
  from assms(1) have nz: "\<not> py_not (timeout self)" by (simp add: py_not_def)
  have "acquire env (k + Suc n) self w
          = acquire_loop env (Suc n) (time_time w) self (turn_world env self k w)"
    unfolding acquire_def by (rule loop_skip_turns [OF nz assms(2)])
  also have "\<dots> = Some (Inl (DirLockException ''Timeout occurred.''), self,
                   (turn_world env self k w)
                     \<lparr>trace := trace (turn_world env self k w) @ [SysOpen (lockfile self)]\<rparr>)"
    using nz assms(4) os_open_failed [OF assms(3)] by (simp add: time_time_def)
  finally show ?thesis .
qed

text \<open>
  With the lock taken by another holder, the lock that waits a tenth of a second and polls
  every twentieth finds the file at times 0, 1/20 and 1/10, and times out on the third
  turn.
\<close>

theorem acquire_timeout_witness:
  "timeout ex_quick \<noteq> PyNum 0
   \<and> fst (os_open (lockfile ex_quick) (turn_world id ex_quick 0 ex_taken)) = Inl EEXIST
   \<and> \<not> py_ge (time_time (turn_world id ex_quick 0 ex_taken) - time_time ex_taken)
         (timeout ex_quick)
   \<and> fst (time_sleep id (delay ex_quick)
            (snd (os_open (lockfile ex_quick) (turn_world id ex_quick 0 ex_taken)))) = Inr ()
   \<and> fst (os_open (lockfile ex_quick) (turn_world id ex_quick (Suc 0) ex_taken)) = Inl EEXIST
   \<and> \<not> py_ge (time_time (turn_world id ex_quick (Suc 0) ex_taken) - time_time ex_taken)
         (timeout ex_quick)
   \<and> fst (time_sleep id (delay ex_quick)
            (snd (os_open (lockfile ex_quick) (turn_world id ex_quick (Suc 0) ex_taken)))) = Inr ()
   \<and> fst (os_open (lockfile ex_quick) (turn_world id ex_quick (Suc (Suc 0)) ex_taken)) = Inl EEXIST
   \<and> py_ge (time_time (turn_world id ex_quick (Suc (Suc 0)) ex_taken) - time_time ex_taken)
         (timeout ex_quick)
   \<and> acquire id (Suc (Suc (Suc 0))) ex_quick ex_taken
       = Some (Inl (DirLockException ''Timeout occurred.''), ex_quick,
               ex_taken\<lparr>clock := 1 / 10,
                 trace := [SysOpen ''/srv/job/job.lock'', SysSleep (1 / 20),
                           SysOpen ''/srv/job/job.lock'', SysSleep (1 / 20),
                           SysOpen ''/srv/job/job.lock'']\<rparr>)"
proof -
  have h1: "timeout ex_quick \<noteq> PyNum 0" by code_simp
  have t0: "fst (os_open (lockfile ex_quick) (turn_world id ex_quick 0 ex_taken)) = Inl EEXIST
       \<and> \<not> py_ge (time_time (turn_world id ex_quick 0 ex_taken) - time_time ex_taken)
             (timeout ex_quick)
       \<and> fst (time_sleep id (delay ex_quick)
                (snd (os_open (lockfile ex_quick) (turn_world id ex_quick 0 ex_taken)))) = Inr ()"
    by code_simp
  have t1: "fst (os_open (lockfile ex_quick) (turn_world id ex_quick (Suc 0) ex_taken)) = Inl EEXIST
       \<and> \<not> py_ge (time_time (turn_world id ex_quick (Suc 0) ex_taken) - time_time ex_taken)
             (timeout ex_quick)
       \<and> fst (time_sleep id (delay ex_quick)
                (snd (os_open (lockfile ex_quick) (turn_world id ex_quick (Suc 0) ex_taken))))
           = Inr ()"
    by code_simp
  have h2: "\<forall>j<Suc (Suc 0).
         fst (os_open (lockfile ex_quick) (turn_world id ex_quick j ex_taken)) = Inl EEXIST
       \<and> \<not> py_ge (time_time (turn_world id ex_quick j ex_taken) - time_time ex_taken)
             (timeout ex_quick)
       \<and> fst (time_sleep id (delay ex_quick)
                (snd (os_open (lockfile ex_quick) (turn_world id ex_quick j ex_taken)))) = Inr ()"
  proof (intro allI impI)
    fix j :: nat assume "j < Suc (Suc 0)"
    then have "j = 0 \<or> j = Suc 0" by auto
    with t0 t1 show "fst (os_open (lockfile ex_quick) (turn_world id ex_quick j ex_taken)) = Inl EEXIST
       \<and> \<not> py_ge (time_time (turn_world id ex_quick j ex_taken) - time_time ex_taken)
             (timeout ex_quick)
       \<and> fst (time_sleep id (delay ex_quick)
                (snd (os_open (lockfile ex_quick) (turn_world id ex_quick j ex_taken)))) = Inr ()"
      by blast
  qed
  have h3: "fst (os_open (lockfile ex_quick) (turn_world id ex_quick (Suc (Suc 0)) ex_taken))
              = Inl EEXIST" by code_simp
  have h4: "py_ge (time_time (turn_world id ex_quick (Suc (Suc 0)) ex_taken) - time_time ex_taken)
              (timeout ex_quick)" by code_simp
  have e: "(turn_world id ex_quick (Suc (Suc 0)) ex_taken)
             \<lparr>trace := trace (turn_world id ex_quick (Suc (Suc 0)) ex_taken)
                        @ [SysOpen (lockfile ex_quick)]\<rparr>
           = ex_taken\<lparr>clock := 1 / 10,
                 trace := [SysOpen ''/srv/job/job.lock'', SysSleep (1 / 20),
                           SysOpen ''/srv/job/job.lock'', SysSleep (1 / 20),
                           SysOpen ''/srv/job/job.lock'']\<rparr>"
    by code_simp
  from acquire_timeout [OF h1 h2 h3 h4, of 0]
  have "acquire id (Suc (Suc (Suc 0))) ex_quick ex_taken
       = Some (Inl (DirLockException ''Timeout occurred.''), ex_quick,
               ex_taken\<lparr>clock := 1 / 10,
                 trace := [SysOpen ''/srv/job/job.lock'', SysSleep (1 / 20),
                           SysOpen ''/srv/job/job.lock'', SysSleep (1 / 20),
                           SysOpen ''/srv/job/job.lock'']\<rparr>)"
    by (simp only: e add_Suc add_0 add_Suc_right add_0_right)
  with h1 t0 t1 h3 h4 show ?thesis by blast
qed

section \<open>Release\<close>

text \<open>
  C8. On an instance whose \<open>is_locked\<close> is false, \<open>release\<close> returns normally and
  leaves both the instance and the machine exactly as they were: no field changes and no
  system call is made.
\<close>

theorem release_unlocked_noop:
  "\<not> is_locked self \<Longrightarrow> release self w = (Inr (), self, w)"
  by (simp add: release_def)

theorem release_unlocked_noop_witness:
  "\<not> is_locked ex_lock \<and> release ex_lock ex_taken = (Inr (), ex_lock, ex_taken)"
proof -
  have h: "\<not> is_locked ex_lock" by code_simp
  from release_unlocked_noop [OF h, of ex_taken] h show ?thesis by simp
qed

section \<open>The invariant\<close>

lemma lock_inv_same:
  "files w' = files w \<Longrightarrow> fdtab w' = fdtab w \<Longrightarrow> lock_inv s w' = lock_inv s w"
  by (simp add: lock_inv_def split: option.splits)

lemma lock_inv_tame:
  assumes "tame env" and "lock_inv s w"
  shows "lock_inv s (env w)"
proof (cases "is_locked s")
  case False
  then show ?thesis by (simp add: lock_inv_def)
next
  case True
  with assms(2) obtain d where d: "fd s = Some d" "map_of (fdtab w) d = Some (lockfile s)"
    and f: "lockfile s \<in> files w"
    by (auto simp: lock_inv_def split: option.splits)
  from d(2) have "(d, lockfile s) \<in> set (fdtab w)" by (rule map_of_SomeD)
  with assms(1) f have "lockfile s \<in> files (env w)"
    unfolding tame_def by blast
  moreover from assms(1) have "fdtab (env w) = fdtab w"
    unfolding tame_def by blast
  ultimately show ?thesis using d True by (simp add: lock_inv_def)
qed

lemma lock_inv_after_sleep:
  assumes "tame env" and "lock_inv self w"
  shows "lock_inv self (env (w\<lparr>trace := t1, clock := c, trace := t2\<rparr>))"
  using assms(2) lock_inv_same [of "w\<lparr>trace := t1, clock := c, trace := t2\<rparr>" w self]
  by (intro lock_inv_tame [OF assms(1)]) simp

lemma lock_inv_created:
  assumes "os_open (lockfile self) w = (Inr d, w')"
  shows "lock_inv (self\<lparr>fd := Some d, is_locked := True\<rparr>) w'"
proof -
  from assms have "fst (os_open (lockfile self) w) = Inr d" by simp
  then have "lockfile self \<notin> files w \<and> map_of (denied w) (lockfile self) = None"
    by (rule os_open_succeeded)
  with assms show ?thesis by (auto simp: os_open_created lock_inv_def)
qed

lemma acquire_loop_lock_inv:
  "tame env \<Longrightarrow> lock_inv self w \<Longrightarrow> acquire_loop env n start self w = Some (r, s', w') \<Longrightarrow>
   lock_inv s' w'"
proof (induction n arbitrary: w)
  case 0
  then show ?case by simp
next
  case (Suc n)
  from loop_cases [OF Suc.prems(3)] show ?case
  proof (elim disjE exE conjE)
    fix d assume "os_open (lockfile self) w = (Inr d, w')"
      and "s' = self\<lparr>fd := Some d, is_locked := True\<rparr>"
    then show ?thesis using lock_inv_created by simp
  next
    fix x assume "s' = self" and "w' = w\<lparr>trace := trace w @ [SysOpen (lockfile self)]\<rparr>"
    then show ?thesis using Suc.prems(2) lock_inv_same [of w' w self] by simp
  next
    fix d
    assume nt: "next_try env self w
          = env (w\<lparr>trace := trace w @ [SysOpen (lockfile self)], clock := clock w + d,
                   trace := trace w @ [SysOpen (lockfile self), SysSleep d]\<rparr>)"
      and run: "acquire_loop env n start self (next_try env self w) = Some (r, s', w')"
    have "lock_inv self (next_try env self w)"
      unfolding nt by (rule lock_inv_after_sleep [OF Suc.prems(1,2)])
    from Suc.IH [OF Suc.prems(1) this run] show ?thesis .
  qed
qed

lemma denied_tame: "tame env \<Longrightarrow> denied (env w) = denied w"
  unfolding tame_def by blast

lemma acquire_loop_permitted:
  "tame env \<Longrightarrow> (is_locked self \<longrightarrow> map_of (denied w) (lockfile self) = None) \<Longrightarrow>
   acquire_loop env n start self w = Some (r, s', w') \<Longrightarrow>
   is_locked s' \<longrightarrow> map_of (denied w') (lockfile s') = None"
proof (induction n arbitrary: w)
  case 0
  then show ?case by simp
next
  case (Suc n)
  from loop_cases [OF Suc.prems(3)] show ?case
  proof (elim disjE exE conjE)
    fix d assume o: "os_open (lockfile self) w = (Inr d, w')"
      and s: "s' = self\<lparr>fd := Some d, is_locked := True\<rparr>"
    from o have "fst (os_open (lockfile self) w) = Inr d" by simp
    then have "lockfile self \<notin> files w \<and> map_of (denied w) (lockfile self) = None"
      by (rule os_open_succeeded)
    with o s show ?thesis by (auto simp: os_open_created)
  next
    fix x assume "s' = self" and "w' = w\<lparr>trace := trace w @ [SysOpen (lockfile self)]\<rparr>"
    then show ?thesis using Suc.prems(2) by simp
  next
    fix d
    assume nt: "next_try env self w
          = env (w\<lparr>trace := trace w @ [SysOpen (lockfile self)], clock := clock w + d,
                   trace := trace w @ [SysOpen (lockfile self), SysSleep d]\<rparr>)"
      and run: "acquire_loop env n start self (next_try env self w) = Some (r, s', w')"
    have "denied (next_try env self w) = denied w"
      unfolding nt by (simp add: denied_tame [OF Suc.prems(1)])
    with Suc.prems(2)
    have "is_locked self \<longrightarrow> map_of (denied (next_try env self w)) (lockfile self) = None"
      by simp
    from Suc.IH [OF Suc.prems(1) this run] show ?thesis .
  qed
qed

lemma strong_inv_tame:
  "tame env \<Longrightarrow> strong_inv s w \<Longrightarrow> strong_inv s (env w)"
  by (simp add: strong_inv_def lock_inv_tame denied_tame)

lemma strong_inv_files: "strong_inv self w \<Longrightarrow> is_locked self \<Longrightarrow> lockfile self \<in> files w"
  by (simp add: strong_inv_def lock_inv_def)

lemma acquire_loop_strong_inv:
  assumes "tame env" and "strong_inv self w"
    and "acquire_loop env n start self w = Some (r, s', w')"
  shows "strong_inv s' w'"
  using assms acquire_loop_lock_inv [OF assms(1) _ assms(3)]
    acquire_loop_permitted [OF assms(1) _ assms(3)]
  by (simp add: strong_inv_def)

lemma release_locked_ok:
  assumes "strong_inv self w" and "is_locked self"
  shows "\<exists>d. fd self = Some d \<and> release self w =
           (Inr (), self\<lparr>is_locked := False\<rparr>,
            w\<lparr>trace := trace w @ [SysClose d, SysUnlink (lockfile self)],
              fdtab := filter (\<lambda>(k, q). k \<noteq> d) (fdtab w),
              files := files w - {lockfile self}\<rparr>)"
proof -
  from assms obtain d where d: "fd self = Some d" "map_of (fdtab w) d = Some (lockfile self)"
    and f: "lockfile self \<in> files w" and n: "map_of (denied w) (lockfile self) = None"
    by (auto simp: strong_inv_def lock_inv_def split: option.splits)
  then show ?thesis using assms(2)
    by (simp add: release_def os_close_def os_unlink_def Let_def)
qed

lemma release_returned: "release self w = (Inr u, s', w') \<Longrightarrow> \<not> is_locked s'"
  by (auto simp: release_def split: if_splits option.splits prod.splits sum.splits)

lemma exit_returned: "DirLock_exit x self w = (Inr v, s', w') \<Longrightarrow> \<not> is_locked s'"
  by (auto simp: DirLock_exit_def dest: release_returned split: if_splits prod.splits sum.splits)

lemma release_strong_inv:
  assumes "strong_inv self w" and "release self w = (r, s', w')"
  shows "strong_inv s' w'"
proof (cases "is_locked self")
  case True
  from release_locked_ok [OF assms(1) True] assms(2) have "\<not> is_locked s'" by auto
  then show ?thesis by (simp add: strong_inv_def lock_inv_def)
next
  case False
  with assms show ?thesis by (simp add: release_def)
qed

lemma release_refused:
  assumes "is_locked self" and "lock_inv self w"
    and "map_of (denied w) (lockfile self) = Some e"
  shows "fst (release self w) = Inl (OSError e)
       \<and> is_locked (fst (snd (release self w)))
       \<and> \<not> lock_inv (fst (snd (release self w))) (snd (snd (release self w)))"
proof -
  from assms(1,2) obtain d where d: "fd self = Some d" "map_of (fdtab w) d = Some (lockfile self)"
    and f: "lockfile self \<in> files w"
    by (auto simp: lock_inv_def split: option.splits)
  with assms(1,3) have "release self w =
      (Inl (OSError e), self,
       w\<lparr>trace := trace w @ [SysClose d, SysUnlink (lockfile self)],
         fdtab := filter (\<lambda>(k, q). k \<noteq> d) (fdtab w)\<rparr>)"
    by (simp add: release_def os_close_def os_unlink_def Let_def)
  then show ?thesis using assms(1) d(1) by (simp add: lock_inv_def closed_fd_gone)
qed

lemma reach_strong_inv: "reach sw \<Longrightarrow> strong_inv (fst sw) (snd sw)"
proof (induction rule: reach.induct)
  case (construct dir tmo dly w)
  then show ?case by (simp add: strong_inv_def lock_inv_def DirLock_init_def)
next
  case (do_acquire s w env n r s' w')
  then show ?case using acquire_loop_strong_inv [of env s w n "time_time w" r s' w']
    by (simp add: acquire_def)
next
  case (do_release s w r s' w')
  then show ?case using release_strong_inv [of s w r s' w'] by simp
next
  case (do_enter s w env n v s' w')
  then show ?case using acquire_loop_strong_inv [of env s w n "time_time w" _ s' w']
    by (auto simp: DirLock_enter_def acquire_def split: if_splits option.splits sum.splits)
next
  case (do_exit s w x v s' w')
  then show ?case using release_strong_inv [of s w _ s' w']
    by (auto simp: DirLock_exit_def split: if_splits prod.splits sum.splits)
next
  case (others s w env)
  then show ?case using strong_inv_tame [of env s w] by simp
qed

lemma tame_id: "tame id"
  by (simp add: tame_def)

lemma ex_acquired: "acquire id (Suc 0) ex_lock ex_world = Some (Inr (), ex_held, ex_held_world)"
  by code_simp

lemma ex_reach: "reach (ex_held, ex_held_world)"
proof -
  have "reach (ex_lock, ex_world)"
    unfolding ex_lock_def DirLock_default_def by (rule reach.construct)
  from reach.do_acquire [OF this tame_id ex_acquired] show ?thesis .
qed

text \<open>
  C6, as stated, fails. The default lock is held, with its file in place and its handle
  open, when the directory is made read-only: \<open>release\<close> closes the handle, the
  \<open>unlink\<close> is refused, and \<open>is_locked\<close> stays true with a handle that is no longer
  open, so \<open>release\<close> does not preserve the invariant. And when another actor deletes
  the lock file of the held lock, \<open>is_locked\<close> is true with no lock file on disk.
\<close>

theorem reachable_lock_inv_counterexample:
  "is_locked ex_held \<and> lock_inv ex_held ex_refused
   \<and> fst (release ex_held ex_refused) = Inl (OSError EACCES)
   \<and> is_locked (fst (snd (release ex_held ex_refused)))
   \<and> \<not> lock_inv (fst (snd (release ex_held ex_refused))) (snd (snd (release ex_held ex_refused)))
   \<and> acquire id (Suc 0) ex_lock ex_world = Some (Inr (), ex_held, ex_held_world)
   \<and> \<not> lock_inv ex_held (ex_thief ex_held_world)"
  by code_simp

text \<open>
  C6 (amended). In every state reached from construction by \<open>acquire\<close>, \<open>release\<close>,
  scope entry and scope exit, in any order, as long as the other actors do not delete a
  lock file that this process holds open and do not change what the file system permits,
  a set \<open>is_locked\<close> means that the lock file exists and that the stored handle is an
  open descriptor of it. From any state in which the invariant holds, \<open>acquire\<close> and
  scope entry preserve it (with such other actors during the sleeps); \<open>release\<close> and
  scope exit preserve it whenever they return normally, and whenever the file system
  permits deleting the lock file. A \<open>release\<close> whose \<open>unlink\<close> is refused has
  already closed the handle and leaves \<open>is_locked\<close> true: there the invariant is lost.
\<close>

theorem reachable_lock_inv:
  "(reach (self, w) \<longrightarrow> lock_inv self w)
   \<and> (tame env \<and> lock_inv self w \<and> acquire env n self w = Some (r, s1, w1) \<longrightarrow> lock_inv s1 w1)
   \<and> (tame env \<and> lock_inv self w \<and> DirLock_enter env n self w = Some (v, s2, w2) \<longrightarrow>
        lock_inv s2 w2)
   \<and> (release self w = (Inr (), s3, w3) \<longrightarrow> lock_inv s3 w3)
   \<and> (DirLock_exit x self w = (Inr v', s4, w4) \<longrightarrow> lock_inv s4 w4)
   \<and> (lock_inv self w \<and> (is_locked self \<longrightarrow> map_of (denied w) (lockfile self) = None) \<longrightarrow>
        lock_inv (fst (snd (release self w))) (snd (snd (release self w)))
        \<and> lock_inv (fst (snd (DirLock_exit x self w))) (snd (snd (DirLock_exit x self w))))
   \<and> (is_locked self \<and> lock_inv self w \<and> map_of (denied w) (lockfile self) = Some e \<longrightarrow>
        fst (release self w) = Inl (OSError e)
        \<and> is_locked (fst (snd (release self w)))
        \<and> \<not> lock_inv (fst (snd (release self w))) (snd (snd (release self w))))"
proof (intro conjI impI)
  show "lock_inv self w" if "reach (self, w)"
    using reach_strong_inv [OF that] by (simp add: strong_inv_def)
  show "lock_inv s1 w1"
    if "tame env \<and> lock_inv self w \<and> acquire env n self w = Some (r, s1, w1)"
    using that acquire_loop_lock_inv [of env self w n "time_time w" r s1 w1]
    by (simp add: acquire_def)
  show "lock_inv s2 w2"
    if "tame env \<and> lock_inv self w \<and> DirLock_enter env n self w = Some (v, s2, w2)"
    using that acquire_loop_lock_inv [of env self w n "time_time w" _ s2 w2]
    by (auto simp: DirLock_enter_def acquire_def split: if_splits option.splits sum.splits)
  show "lock_inv s3 w3" if "release self w = (Inr (), s3, w3)"
    using release_returned [OF that] by (simp add: lock_inv_def)
  show "lock_inv s4 w4" if "DirLock_exit x self w = (Inr v', s4, w4)"
    using exit_returned [OF that] by (simp add: lock_inv_def)
next
  assume "lock_inv self w \<and> (is_locked self \<longrightarrow> map_of (denied w) (lockfile self) = None)"
  then have st: "strong_inv self w" by (simp add: strong_inv_def)
  obtain r s' w' where rel: "release self w = (r, s', w')" by (cases "release self w") auto
  from release_strong_inv [OF st rel] have after: "lock_inv s' w'" by (simp add: strong_inv_def)
  with rel show "lock_inv (fst (snd (release self w))) (snd (snd (release self w)))" by simp
  show "lock_inv (fst (snd (DirLock_exit x self w))) (snd (snd (DirLock_exit x self w)))"
  proof (cases "is_locked self")
    case True
    with rel after show ?thesis by (cases r) (simp_all add: DirLock_exit_def)
  next
    case False
    then show ?thesis by (simp add: DirLock_exit_def lock_inv_def)
  qed
next
  assume h: "is_locked self \<and> lock_inv self w \<and> map_of (denied w) (lockfile self) = Some e"
  then have r: "fst (release self w) = Inl (OSError e)
       \<and> is_locked (fst (snd (release self w)))
       \<and> \<not> lock_inv (fst (snd (release self w))) (snd (snd (release self w)))"
    using release_refused [of self w e] by blast
  from r show "fst (release self w) = Inl (OSError e)" by blast
  from r show "is_locked (fst (snd (release self w)))" by blast
  from r show "\<not> lock_inv (fst (snd (release self w))) (snd (snd (release self w)))" by blast
qed

text \<open>
  The default lock after its \<open>acquire\<close> is a reachable state in which \<open>is_locked\<close> is
  set, the lock file exists and descriptor 1 is open on it; its \<open>release\<close> returns
  normally and keeps the invariant.
\<close>

theorem reachable_lock_inv_witness:
  "reach (ex_held, ex_held_world) \<and> is_locked ex_held
   \<and> lockfile ex_held \<in> files ex_held_world
   \<and> fd ex_held = Some 1 \<and> map_of (fdtab ex_held_world) 1 = Some (lockfile ex_held)
   \<and> map_of (denied ex_held_world) (lockfile ex_held) = None
   \<and> lock_inv (fst (snd (release ex_held ex_held_world))) (snd (snd (release ex_held ex_held_world)))"
proof -
  have l: "is_locked ex_held" and f: "fd ex_held = Some 1"
    and p: "map_of (denied ex_held_world) (lockfile ex_held) = None" by code_simp+
  note t = reachable_lock_inv [where self = ex_held and w = ex_held_world]
  from t ex_reach have i: "lock_inv ex_held ex_held_world" by blast
  from t i p
  have k: "lock_inv (fst (snd (release ex_held ex_held_world)))
             (snd (snd (release ex_held ex_held_world)))" by blast
  from i l f have "lockfile ex_held \<in> files ex_held_world
      \<and> map_of (fdtab ex_held_world) 1 = Some (lockfile ex_held)"
    by (simp add: lock_inv_def)
  with ex_reach l f p k show ?thesis by blast
qed

section \<open>Round trip\<close>

lemma acquire_free:
  "p \<notin> files w \<Longrightarrow> map_of (denied w) p = None \<Longrightarrow> lockfile self = p \<Longrightarrow>
   acquire env (Suc n) self w =
     Some (Inr (), self\<lparr>fd := Some (fresh_fd (map fst (fdtab w))), is_locked := True\<rparr>,
       w\<lparr>trace := trace w @ [SysOpen p], files := insert p (files w),
         fdtab := (fresh_fd (map fst (fdtab w)), p) # fdtab w\<rparr>)"
  by (simp add: acquire_def os_open_created)

text \<open>
  C7, as stated, fails: an unlocked instance with no lock file present whose directory
  does not exist. The create is refused with \<open>ENOENT\<close> and \<open>acquire\<close> fails.
\<close>

theorem round_trip_counterexample:
  "\<not> is_locked ex_lock \<and> lockfile ex_lock \<notin> files ex_nodir
   \<and> acquire id 3 ex_lock ex_nodir
       = Some (Inl (OSError ENOENT), ex_lock, ex_nodir\<lparr>trace := [SysOpen ''/srv/job/job.lock'']\<rparr>)"
  by code_simp

text \<open>
  C7 (amended). For an unlocked instance with no lock file present, on a file system
  that does not refuse the lock file (the directory exists and is writable):
  \<open>acquire\<close> succeeds on its first create, the \<open>release\<close> that follows succeeds,
  leaves no lock file and leaves \<open>is_locked\<close> false; after that, an \<open>acquire\<close> by
  any instance with the same lock file, this one included, succeeds on its first create
  (one unit of fuel, a single \<open>open\<close> added to the trace, no sleep).
\<close>

theorem round_trip:
  assumes "\<not> is_locked self" and "lockfile self \<notin> files w"
    and "map_of (denied w) (lockfile self) = None"
  shows "\<exists>s1 w1 s2 w2.
           acquire env (Suc n) self w = Some (Inr (), s1, w1)
         \<and> release s1 w1 = (Inr (), s2, w2)
         \<and> \<not> is_locked s2 \<and> lockfile self \<notin> files w2
         \<and> (\<forall>other env' m. lockfile other = lockfile self \<longrightarrow>
               (\<exists>s3 w3. acquire env' (Suc m) other w2 = Some (Inr (), s3, w3)
                          \<and> is_locked s3 \<and> trace w3 = trace w2 @ [SysOpen (lockfile self)]))"
proof -
  let ?p = "lockfile self"
  let ?d = "fresh_fd (map fst (fdtab w))"
  let ?s1 = "self\<lparr>fd := Some ?d, is_locked := True\<rparr>"
  let ?w1 = "w\<lparr>trace := trace w @ [SysOpen ?p], files := insert ?p (files w),
               fdtab := (?d, ?p) # fdtab w\<rparr>"
  let ?s2 = "?s1\<lparr>is_locked := False\<rparr>"
  let ?w2 = "w\<lparr>trace := trace w @ [SysOpen ?p, SysClose ?d, SysUnlink ?p]\<rparr>"
  have a: "acquire env (Suc n) self w = Some (Inr (), ?s1, ?w1)"
    using assms by (simp add: acquire_free)
  have r: "release ?s1 ?w1 = (Inr (), ?s2, ?w2)"
    using assms(2,3) by (simp add: release_def os_close_def os_unlink_def Let_def close_fresh)
  have again: "\<exists>s3 w3. acquire env' (Suc m) other ?w2 = Some (Inr (), s3, w3)
                 \<and> is_locked s3 \<and> trace w3 = trace ?w2 @ [SysOpen ?p]"
    if "lockfile other = ?p" for other env' m
    using assms(2,3) that acquire_free [of ?p ?w2 other env' m] by simp
  have c: "\<not> is_locked ?s2" by simp
  have f: "lockfile self \<notin> files ?w2" using assms(2) by simp
  from a r c f again show ?thesis by blast
qed

theorem round_trip_witness:
  "\<not> is_locked ex_lock \<and> lockfile ex_lock \<notin> files ex_world
   \<and> map_of (denied ex_world) (lockfile ex_lock) = None
   \<and> (\<exists>s1 w1 s2 w2.
           acquire id (Suc 0) ex_lock ex_world = Some (Inr (), s1, w1)
         \<and> release s1 w1 = (Inr (), s2, w2)
         \<and> \<not> is_locked s2 \<and> lockfile ex_lock \<notin> files w2
         \<and> (\<forall>other env' m. lockfile other = lockfile ex_lock \<longrightarrow>
               (\<exists>s3 w3. acquire env' (Suc m) other w2 = Some (Inr (), s3, w3)
                          \<and> is_locked s3 \<and> trace w3 = trace w2 @ [SysOpen (lockfile ex_lock)])))"
proof -
  have h1: "\<not> is_locked ex_lock" by code_simp
  have h2: "lockfile ex_lock \<notin> files ex_world" by code_simp
  have h3: "map_of (denied ex_world) (lockfile ex_lock) = None" by code_simp
  from round_trip [OF h1 h2 h3, of id 0] h1 h2 h3 show ?thesis by blast
qed

section \<open>The lock file's path\<close>














section \<open>Scoped exit and the destructor\<close>

lemma release_outcomes:
  assumes "is_locked self" and "fd self = Some d"
  shows "map_of (fdtab w) d = None \<Longrightarrow>
           release self w = (Inl (OSError EBADF), self, w\<lparr>trace := trace w @ [SysClose d]\<rparr>)"
    and "map_of (fdtab w) d \<noteq> None \<Longrightarrow> lockfile self \<notin> files w \<Longrightarrow>
           fst (release self w) = Inl (OSError ENOENT) \<and> is_locked (fst (snd (release self w)))"
    and "map_of (fdtab w) d \<noteq> None \<Longrightarrow> lockfile self \<in> files w \<Longrightarrow>
         map_of (denied w) (lockfile self) = Some e \<Longrightarrow>
           fst (release self w) = Inl (OSError e) \<and> is_locked (fst (snd (release self w)))"
    and "map_of (fdtab w) d \<noteq> None \<Longrightarrow> lockfile self \<in> files w \<Longrightarrow>
         map_of (denied w) (lockfile self) = None \<Longrightarrow>
           release self w =
             (Inr (), self\<lparr>is_locked := False\<rparr>,
              w\<lparr>trace := trace w @ [SysClose d, SysUnlink (lockfile self)],
                fdtab := filter (\<lambda>(k, q). k \<noteq> d) (fdtab w),
                files := files w - {lockfile self}\<rparr>)"
  using assms by (auto simp: release_def os_close_def os_unlink_def Let_def)

text \<open>
  C4, as stated, fails on its scoped-exit half: the default lock is acquired, another
  actor removes the lock file, and the scoped exit that follows raises the \<open>ENOENT\<close>
  of the failed \<open>unlink\<close>.
\<close>

theorem scoped_exit_counterexample:
  "acquire id (Suc 0) ex_lock ex_world = Some (Inr (), ex_held, ex_held_world)
   \<and> fst (DirLock_exit None ex_held ex_stolen) = Inl (OSError ENOENT)"
  by code_simp

text \<open>
  C4 (amended). Release errors arising during destruction of the instance never surface:
  \<open>__del__\<close> calls \<open>release\<close>, the interpreter discards what it raises, and the
  machine is left as that \<open>release\<close> left it (with the lock file gone when the lock was
  held, its handle open, its file in place and deletion permitted). Release errors arising
  during scoped exit do surface. Scoped exit returns normally, with \<open>None\<close>, when the
  lock is not held (nothing is done), and when the lock is held, the stored handle is open,
  the lock file exists and the file system allows deleting it (the lock is then released
  and the file gone). When the lock is held and the handle is not open it raises
  \<open>OSError EBADF\<close>; when the lock file is gone, for instance removed by another actor,
  it raises \<open>OSError ENOENT\<close>; when deleting is refused it raises that \<open>OSError\<close>.
  In every case its outcome is that of \<open>release\<close>.
\<close>

theorem scoped_exit_outcome:
  "(\<not> is_locked self \<longrightarrow> DirLock_exit x self w = (Inr PyNone, self, w))
   \<and> (is_locked self \<and> fd self = Some d \<and> map_of (fdtab w) d = None \<longrightarrow>
        fst (DirLock_exit x self w) = Inl (OSError EBADF))
   \<and> (is_locked self \<and> fd self = Some d \<and> map_of (fdtab w) d \<noteq> None
        \<and> lockfile self \<notin> files w \<longrightarrow>
        fst (DirLock_exit x self w) = Inl (OSError ENOENT))
   \<and> (is_locked self \<and> fd self = Some d \<and> map_of (fdtab w) d \<noteq> None
        \<and> lockfile self \<in> files w \<and> map_of (denied w) (lockfile self) = Some e \<longrightarrow>
        fst (DirLock_exit x self w) = Inl (OSError e))
   \<and> (is_locked self \<and> fd self = Some d \<and> map_of (fdtab w) d \<noteq> None
        \<and> lockfile self \<in> files w \<and> map_of (denied w) (lockfile self) = None \<longrightarrow>
        fst (DirLock_exit x self w) = Inr PyNone
        \<and> \<not> is_locked (fst (snd (DirLock_exit x self w)))
        \<and> lockfile self \<notin> files (snd (snd (DirLock_exit x self w))))
   \<and> (is_locked self \<longrightarrow>
        fst (DirLock_exit x self w)
          = (case fst (release self w) of Inl e' \<Rightarrow> Inl e' | Inr u \<Rightarrow> Inr PyNone))
   \<and> fst (destroy self w) = Inr ()
   \<and> snd (destroy self w) = snd (snd (release self w))
   \<and> (is_locked self \<and> fd self = Some d \<and> map_of (fdtab w) d \<noteq> None
        \<and> lockfile self \<in> files w \<and> map_of (denied w) (lockfile self) = None \<longrightarrow>
        lockfile self \<notin> files (snd (destroy self w)))"
proof (intro conjI impI)
  show "DirLock_exit x self w = (Inr PyNone, self, w)" if "\<not> is_locked self"
    using that by (simp add: DirLock_exit_def)
  show "fst (DirLock_exit x self w) = Inl (OSError EBADF)"
    if "is_locked self \<and> fd self = Some d \<and> map_of (fdtab w) d = None"
    using that release_outcomes(1) [of self d w] by (simp add: DirLock_exit_def)
  show "fst (DirLock_exit x self w) = Inl (OSError ENOENT)"
    if "is_locked self \<and> fd self = Some d \<and> map_of (fdtab w) d \<noteq> None
        \<and> lockfile self \<notin> files w"
    using that release_outcomes(2) [of self d w]
    by (cases "release self w") (simp add: DirLock_exit_def)
  show "fst (DirLock_exit x self w) = Inl (OSError e)"
    if "is_locked self \<and> fd self = Some d \<and> map_of (fdtab w) d \<noteq> None
        \<and> lockfile self \<in> files w \<and> map_of (denied w) (lockfile self) = Some e"
    using that release_outcomes(3) [of self d w e]
    by (cases "release self w") (simp add: DirLock_exit_def)
  show "fst (DirLock_exit x self w)
          = (case fst (release self w) of Inl e' \<Rightarrow> Inl e' | Inr u \<Rightarrow> Inr PyNone)"
    if "is_locked self"
    using that by (cases "release self w") (simp add: DirLock_exit_def split: sum.splits)
  show "fst (destroy self w) = Inr ()"
    by (simp add: destroy_def split: prod.splits)
  show "snd (destroy self w) = snd (snd (release self w))"
    by (simp add: destroy_def DirLock_del_def split: prod.splits)
next
  assume ok: "is_locked self \<and> fd self = Some d \<and> map_of (fdtab w) d \<noteq> None
        \<and> lockfile self \<in> files w \<and> map_of (denied w) (lockfile self) = None"
  with release_outcomes(4) [of self d w]
  have ex: "DirLock_exit x self w =
             (Inr PyNone, self\<lparr>is_locked := False\<rparr>,
              w\<lparr>trace := trace w @ [SysClose d, SysUnlink (lockfile self)],
                fdtab := filter (\<lambda>(k, q). k \<noteq> d) (fdtab w),
                files := files w - {lockfile self}\<rparr>)"
    by (simp add: DirLock_exit_def)
  show "fst (DirLock_exit x self w) = Inr PyNone" by (simp add: ex)
  show "\<not> is_locked (fst (snd (DirLock_exit x self w)))" by (simp add: ex)
  show "lockfile self \<notin> files (snd (snd (DirLock_exit x self w)))" by (simp add: ex)
  from ok release_outcomes(4) [of self d w]
  show "lockfile self \<notin> files (snd (destroy self w))"
    by (simp add: destroy_def DirLock_del_def)
qed

text \<open>
  Leaving the scope of the held default lock releases it; leaving it after the lock file
  was removed raises \<open>ENOENT\<close>, while destroying the instance then raises nothing
  although its \<open>__del__\<close> fails.
\<close>

theorem scoped_exit_outcome_witness:
  "is_locked ex_held \<and> fd ex_held = Some 1 \<and> map_of (fdtab ex_held_world) 1 \<noteq> None
   \<and> lockfile ex_held \<in> files ex_held_world
   \<and> map_of (denied ex_held_world) (lockfile ex_held) = None
   \<and> fst (DirLock_exit None ex_held ex_held_world) = Inr PyNone
   \<and> \<not> is_locked (fst (snd (DirLock_exit None ex_held ex_held_world)))
   \<and> lockfile ex_held \<notin> files (snd (snd (DirLock_exit None ex_held ex_held_world)))
   \<and> map_of (fdtab ex_stolen) 1 \<noteq> None \<and> lockfile ex_held \<notin> files ex_stolen
   \<and> fst (DirLock_exit None ex_held ex_stolen) = Inl (OSError ENOENT)
   \<and> fst (DirLock_del ex_held ex_stolen) = Inl (OSError ENOENT)
   \<and> fst (destroy ex_held ex_stolen) = Inr ()"
proof -
  have h: "is_locked ex_held" "fd ex_held = Some 1" "map_of (fdtab ex_held_world) 1 \<noteq> None"
    "lockfile ex_held \<in> files ex_held_world"
    "map_of (denied ex_held_world) (lockfile ex_held) = None"
    by code_simp+
  have g: "map_of (fdtab ex_stolen) 1 \<noteq> None" "lockfile ex_held \<notin> files ex_stolen"
    by code_simp+
  note a = scoped_exit_outcome [where self = ex_held and x = None and w = ex_held_world and d = 1]
  note b = scoped_exit_outcome [where self = ex_held and x = None and w = ex_stolen and d = 1]
  from a h have 1: "fst (DirLock_exit None ex_held ex_held_world) = Inr PyNone
      \<and> \<not> is_locked (fst (snd (DirLock_exit None ex_held ex_held_world)))
      \<and> lockfile ex_held \<notin> files (snd (snd (DirLock_exit None ex_held ex_held_world)))"
    by blast
  from b h(1,2) g have 2: "fst (DirLock_exit None ex_held ex_stolen) = Inl (OSError ENOENT)"
    by blast
  have 3: "fst (DirLock_del ex_held ex_stolen) = Inl (OSError ENOENT)" by code_simp
  from b have 4: "fst (destroy ex_held ex_stolen) = Inr ()" by blast
  from 1 2 3 4 h g show ?thesis by blast
qed

section \<open>Scoped acquisition\<close>

lemma with_stmt_after_enter:
  assumes "DirLock_enter env n self w = Some (Inr v, s1, w1)" and "body v s1 w1 = (res, s2, w2)"
  shows "\<not> is_locked s2 \<Longrightarrow> with_stmt env n self body w = Some (res, s2, w2)"
    and "is_locked s2 \<Longrightarrow> release s2 w2 = (Inr (), s3, w3) \<Longrightarrow>
         with_stmt env n self body w = Some (res, s3, w3)"
    and "is_locked s2 \<Longrightarrow> release s2 w2 = (Inl e', s3, w3) \<Longrightarrow>
         with_stmt env n self body w = Some (Inl e', s3, w3)"
  using assms by (cases res; simp add: with_stmt_def DirLock_exit_def)+

lemma enter_returns_self:
  "DirLock_enter env n self w = Some (Inr v, s1, w1) \<Longrightarrow> v = PySelf"
  by (auto simp: DirLock_enter_def split: if_splits option.splits sum.splits)

text \<open>
  C5, as stated, fails: a block that deletes the lock file and then raises. The scoped
  exit calls \<open>release\<close>, whose \<open>unlink\<close> fails, and the \<^verbatim>\<open>with\<close> statement ends
  with that \<open>OSError\<close> in place of the block's own failure.
\<close>

theorem scoped_acquisition_counterexample:
  "fst (ex_body PySelf ex_held ex_held_world) = Inl (OtherError ''boom'')
   \<and> map_option fst (with_stmt id (Suc 0) ex_lock ex_body ex_world) = Some (Inl (OSError ENOENT))"
  by code_simp

text \<open>
  C5 (amended). Entering the scope of a locked instance does nothing and returns the
  instance; entering the scope of an unlocked one is \<open>acquire\<close>, returning the instance
  on success and raising what \<open>acquire\<close> raises (the block is then not run). The block
  is given the instance. Leaving the scope, after a block that ended normally or raised,
  calls \<open>release\<close> exactly when the lock is held. If the lock is not held, or that
  \<open>release\<close> succeeds, the block's outcome is the statement's outcome: a failure of the
  block propagates unchanged. If that \<open>release\<close> fails, its error is raised in place
  of the block's outcome. With the lock held, its file in place, its handle open and
  deletion permitted, the \<open>release\<close> succeeds: afterwards the lock file is gone,
  \<open>is_locked\<close> is false and the block's outcome stands.
\<close>

theorem scoped_acquisition:
  "(is_locked self \<longrightarrow> DirLock_enter env n self w = Some (Inr PySelf, self, w))
   \<and> (\<not> is_locked self \<longrightarrow>
        DirLock_enter env n self w =
          map_option (\<lambda>(r, s, w'). (case r of Inl e \<Rightarrow> Inl e | Inr u \<Rightarrow> Inr PySelf, s, w'))
            (acquire env n self w))
   \<and> (DirLock_enter env n self w = Some (Inl e, s1, w1) \<longrightarrow>
        with_stmt env n self body w = Some (Inl e, s1, w1))
   \<and> (DirLock_enter env n self w = Some (Inr v, s1, w1) \<and> body v s1 w1 = (res, s2, w2) \<longrightarrow>
        v = PySelf
        \<and> (\<not> is_locked s2 \<longrightarrow> with_stmt env n self body w = Some (res, s2, w2))
        \<and> (is_locked s2 \<and> release s2 w2 = (Inr (), s3, w3) \<longrightarrow>
             with_stmt env n self body w = Some (res, s3, w3))
        \<and> (is_locked s2 \<and> release s2 w2 = (Inl e', s3, w3) \<longrightarrow>
             with_stmt env n self body w = Some (Inl e', s3, w3))
        \<and> (is_locked s2 \<and> lock_inv s2 w2 \<and> map_of (denied w2) (lockfile s2) = None \<longrightarrow>
             (\<exists>w4. with_stmt env n self body w = Some (res, s2\<lparr>is_locked := False\<rparr>, w4)
                    \<and> lockfile s2 \<notin> files w4)))"
proof (intro conjI impI)
  show "DirLock_enter env n self w = Some (Inr PySelf, self, w)" if "is_locked self"
    using that by (simp add: DirLock_enter_def)
  show "DirLock_enter env n self w =
          map_option (\<lambda>(r, s, w'). (case r of Inl e \<Rightarrow> Inl e | Inr u \<Rightarrow> Inr PySelf, s, w'))
            (acquire env n self w)" if "\<not> is_locked self"
    using that by (simp add: DirLock_enter_def split: option.splits sum.splits)
  show "with_stmt env n self body w = Some (Inl e, s1, w1)"
    if "DirLock_enter env n self w = Some (Inl e, s1, w1)"
    using that by (simp add: with_stmt_def)
next
  assume a: "DirLock_enter env n self w = Some (Inr v, s1, w1) \<and> body v s1 w1 = (res, s2, w2)"
  then have en: "DirLock_enter env n self w = Some (Inr v, s1, w1)"
    and bo: "body v s1 w1 = (res, s2, w2)" by simp_all
  show "v = PySelf" using en by (rule enter_returns_self)
  show "with_stmt env n self body w = Some (res, s2, w2)" if "\<not> is_locked s2"
    using with_stmt_after_enter(1) [where body = body, OF en bo that] .
  show "with_stmt env n self body w = Some (res, s3, w3)"
    if "is_locked s2 \<and> release s2 w2 = (Inr (), s3, w3)"
    using with_stmt_after_enter(2) [where body = body, OF en bo] that by simp
  show "with_stmt env n self body w = Some (Inl e', s3, w3)"
    if "is_locked s2 \<and> release s2 w2 = (Inl e', s3, w3)"
    using with_stmt_after_enter(3) [where body = body, OF en bo] that by simp
  show "\<exists>w4. with_stmt env n self body w = Some (res, s2\<lparr>is_locked := False\<rparr>, w4)
               \<and> lockfile s2 \<notin> files w4"
    if h: "is_locked s2 \<and> lock_inv s2 w2 \<and> map_of (denied w2) (lockfile s2) = None"
  proof -
    from h have "strong_inv s2 w2" by (simp add: strong_inv_def)
    from release_locked_ok [OF this] h obtain d where
      "release s2 w2 = (Inr (), s2\<lparr>is_locked := False\<rparr>,
            w2\<lparr>trace := trace w2 @ [SysClose d, SysUnlink (lockfile s2)],
              fdtab := filter (\<lambda>(k, q). k \<noteq> d) (fdtab w2),
              files := files w2 - {lockfile s2}\<rparr>)" by blast
    from with_stmt_after_enter(2) [where body = body, OF en bo _ this] h show ?thesis by simp
  qed
qed

text \<open>
  A block that only fails, under the default lock: the failure comes out unchanged, the
  lock is released and its file gone.
\<close>

theorem scoped_acquisition_witness:
  "\<not> is_locked ex_lock
   \<and> DirLock_enter id (Suc 0) ex_lock ex_world = Some (Inr PySelf, ex_held, ex_held_world)
   \<and> ex_failing PySelf ex_held ex_held_world = (Inl (OtherError ''boom''), ex_held, ex_held_world)
   \<and> is_locked ex_held \<and> lock_inv ex_held ex_held_world
   \<and> map_of (denied ex_held_world) (lockfile ex_held) = None
   \<and> (\<exists>w4. with_stmt id (Suc 0) ex_lock ex_failing ex_world
               = Some (Inl (OtherError ''boom''), ex_held\<lparr>is_locked := False\<rparr>, w4)
            \<and> lockfile ex_held \<notin> files w4)"
proof -
  have u: "\<not> is_locked ex_lock" by code_simp
  have en: "DirLock_enter id (Suc 0) ex_lock ex_world = Some (Inr PySelf, ex_held, ex_held_world)"
    by code_simp
  have bo: "ex_failing PySelf ex_held ex_held_world
              = (Inl (OtherError ''boom''), ex_held, ex_held_world)"
    by (simp add: ex_failing_def)
  have h: "is_locked ex_held" "lock_inv ex_held ex_held_world"
    "map_of (denied ex_held_world) (lockfile ex_held) = None"
    by code_simp+
  note t = scoped_acquisition [where self = ex_lock and env = id and n = "Suc 0"
      and w = ex_world and body = ex_failing and v = PySelf and ?s1.0 = ex_held
      and ?w1.0 = ex_held_world and res = "Inl (OtherError ''boom'')" and ?s2.0 = ex_held
      and ?w2.0 = ex_held_world]
  from t en bo h
  have "\<exists>w4. with_stmt id (Suc 0) ex_lock ex_failing ex_world
               = Some (Inl (OtherError ''boom''), ex_held\<lparr>is_locked := False\<rparr>, w4)
            \<and> lockfile ex_held \<notin> files w4"
    by blast
  with u en bo h show ?thesis by blast
qed

section \<open>No reentrant acquisition\<close>

lemma next_try_lock_inv:
  assumes "tame env" and "lock_inv self w"
    and "next_try env self w
          = env (w\<lparr>trace := t1, clock := c, trace := t2\<rparr>)"
  shows "lock_inv self (next_try env self w)"
  unfolding assms(3) by (rule lock_inv_after_sleep [OF assms(1,2)])

lemma held_open_fails:
  assumes "lock_inv self w" and "is_locked self"
  shows "os_open (lockfile self) w
           = (Inl EEXIST, w\<lparr>trace := trace w @ [SysOpen (lockfile self)]\<rparr>)"
  using assms by (intro os_open_exists) (simp add: lock_inv_def)

lemma held_next_try:
  assumes "lock_inv self w" and "is_locked self"
    and "delay self = PyNum d" and "0 \<le> d" and "sleep_ns d \<le> 2 ^ 63 - 1"
  shows "next_try env self w
           = env (w\<lparr>trace := trace w @ [SysOpen (lockfile self)], clock := clock w + d,
                    trace := trace w @ [SysOpen (lockfile self), SysSleep d]\<rparr>)"
  by (simp add: next_try_def held_open_fails [OF assms(1,2)] assms(3)
        sleep_accepted [OF assms(4,5)])

lemma held_never_acquired:
  "tame env \<Longrightarrow> lock_inv self w \<Longrightarrow> is_locked self \<Longrightarrow>
   acquire_loop env n start self w \<noteq> Some (Inr u, s', w')"
proof (induction n arbitrary: w)
  case 0
  then show ?case by simp
next
  case (Suc n)
  show ?case
  proof
    assume a: "acquire_loop env (Suc n) start self w = Some (Inr u, s', w')"
    from loop_cases [OF a] show False
    proof (elim disjE exE conjE)
      fix d assume "os_open (lockfile self) w = (Inr d, w')"
      with held_open_fails [OF Suc.prems(2,3)] show False by simp
    next
      fix x assume "Inr u = Inl x"
      then show False by simp
    next
      fix d
      assume nt: "next_try env self w
          = env (w\<lparr>trace := trace w @ [SysOpen (lockfile self)], clock := clock w + d,
                   trace := trace w @ [SysOpen (lockfile self), SysSleep d]\<rparr>)"
        and run: "acquire_loop env n start self (next_try env self w) = Some (Inr u, s', w')"
      from next_try_lock_inv [OF Suc.prems(1,2) nt]
      have "lock_inv self (next_try env self w)" .
      from Suc.IH [OF Suc.prems(1) this Suc.prems(3)] run show False by simp
    qed
  qed
qed

lemma held_times_out:
  assumes "tame env" and gain: "\<forall>w. clock w + g \<le> clock (env w)"
    and to: "timeout self = PyNum t" "t \<noteq> 0"
    and dl: "delay self = PyNum d" "0 \<le> d" "sleep_ns d \<le> 2 ^ 63 - 1"
    and pos: "0 < d + g" and held: "is_locked self"
  shows "lock_inv self w \<Longrightarrow> t - (clock w - start) \<le> of_nat n * (d + g) \<Longrightarrow>
         \<exists>w'. acquire_loop env (Suc n) start self w
                 = Some (Inl (DirLockException ''Timeout occurred.''), self, w')"
proof (induction n arbitrary: w)
  case 0
  from "0.prems"(2) have "t \<le> clock w - start" by simp
  then show ?case
    using to by (simp add: held_open_fails [OF "0.prems"(1) held] time_time_def py_not_def)
next
  case (Suc n)
  note o = held_open_fails [OF Suc.prems(1) held]
  show ?case
  proof (cases "t \<le> clock w - start")
    case True
    then show ?thesis using to by (simp add: o time_time_def py_not_def)
  next
    case False
    let ?v = "w\<lparr>trace := trace w @ [SysOpen (lockfile self)], clock := clock w + d,
                trace := trace w @ [SysOpen (lockfile self), SysSleep d]\<rparr>"
    have nt: "next_try env self w = env ?v"
      by (rule held_next_try [OF Suc.prems(1) held dl])
    have inv2: "lock_inv self (next_try env self w)"
      by (rule next_try_lock_inv [OF assms(1) Suc.prems(1) nt])
    from spec [OF gain, of ?v] have "clock w + d + g \<le> clock (env ?v)" by simp
    moreover from Suc.prems(2)
    have "t - (clock w - start) \<le> of_nat n * (d + g) + (d + g)"
      by (simp add: algebra_simps)
    ultimately have "t - (clock (next_try env self w) - start) \<le> of_nat n * (d + g)"
      unfolding nt by linarith
    from Suc.IH [OF inv2 this] obtain w' where
      r: "acquire_loop env (Suc n) start self (next_try env self w)
         = Some (Inl (DirLockException ''Timeout occurred.''), self, w')" ..
    have "fst (time_sleep env (delay self) (snd (os_open (lockfile self) w))) = Inr ()"
      by (simp add: o dl(1) sleep_accepted [OF dl(2,3)])
    from loop_retry [where n = "Suc n" and start = start, OF _ _ _ this] False to o
    have "acquire_loop env (Suc (Suc n)) start self w
            = acquire_loop env (Suc n) start self (next_try env self w)"
      by (simp add: py_not_def time_time_def)
    with r show ?thesis by simp
  qed
qed

lemma held_forever:
  assumes "tame env" and "timeout self = PyInf \<or> timeout self = PyNaN"
    and dl: "delay self = PyNum d" "0 \<le> d" "sleep_ns d \<le> 2 ^ 63 - 1"
    and held: "is_locked self"
  shows "lock_inv self w \<Longrightarrow> acquire_loop env n start self w = None"
proof (induction n arbitrary: w)
  case 0
  then show ?case by simp
next
  case (Suc n)
  note o = held_open_fails [OF Suc.prems held]
  have nt: "next_try env self w
      = env (w\<lparr>trace := trace w @ [SysOpen (lockfile self)], clock := clock w + d,
               trace := trace w @ [SysOpen (lockfile self), SysSleep d]\<rparr>)"
    by (rule held_next_try [OF Suc.prems held dl])
  have inv2: "lock_inv self (next_try env self w)"
    by (rule next_try_lock_inv [OF assms(1) Suc.prems nt])
  have s: "fst (time_sleep env (delay self) (snd (os_open (lockfile self) w))) = Inr ()"
    by (simp add: o dl(1) sleep_accepted [OF dl(2,3)])
  from assms(2) have "\<not> py_not (timeout self)"
    and "\<not> py_ge (time_time w - start) (timeout self)"
    by (auto simp: py_not_def)
  from loop_retry [where n = n, OF _ this s] o
  have "acquire_loop env (Suc n) start self w
          = acquire_loop env n start self (next_try env self w)" by simp
  with Suc.IH [OF inv2] show ?case by simp
qed

lemma fuel_bound:
  fixes t d :: rat
  assumes "0 < d" and "nat \<lceil>t / d\<rceil> \<le> n"
  shows "t \<le> of_nat n * d"
proof -
  from assms(2) have "\<lceil>t / d\<rceil> \<le> int n" by linarith
  then have "t / d \<le> of_int (int n)" by (simp only: ceiling_le_iff)
  then have "t / d \<le> of_nat n" by simp
  with assms(1) show ?thesis by (simp add: pos_divide_le_eq)
qed

text \<open>
  C10, as stated, fails: the lock with a delay of -1, once acquired, is asked again.
  The create fails with \<open>EEXIST\<close>, the timeout of 10 seconds has not passed, and
  \<^verbatim>\<open>time.sleep\<close> rejects the delay: the call ends in \<open>ValueError\<close>, which is neither
  of the two failures the claim names. Likewise a delay of 1e10 ends the call in
  \<open>OverflowError\<close> and a delay of \<^verbatim>\<open>nan\<close> in \<open>ValueError\<close>; with a timeout of
  \<^verbatim>\<open>inf\<close>, or with a wall clock that is set back during every sleep, the call has
  not ended after 50 turns; and when another actor deletes the lock file while the call
  sleeps, the call succeeds.
\<close>

theorem held_lock_not_reentrant_counterexample:
  "acquire id (Suc 0) ex_hasty ex_world
     = Some (Inr (), ex_hasty\<lparr>fd := Some 1, is_locked := True\<rparr>, ex_held_world)
   \<and> timeout ex_hasty \<noteq> PyNum 0
   \<and> acquire id 3 (ex_hasty\<lparr>fd := Some 1, is_locked := True\<rparr>) ex_held_world
       = Some (Inl (ValueError ''sleep length must be non-negative''),
               ex_hasty\<lparr>fd := Some 1, is_locked := True\<rparr>,
               ex_held_world\<lparr>trace := [SysOpen ''/srv/job/job.lock'', SysOpen ''/srv/job/job.lock'']\<rparr>)
   \<and> acquire id 3 ex_huge ex_held_world
       = Some (Inl (OverflowError ''timestamp too large to convert to C _PyTime_t''), ex_huge,
               ex_held_world\<lparr>trace := [SysOpen ''/srv/job/job.lock'', SysOpen ''/srv/job/job.lock'']\<rparr>)
   \<and> acquire id 3 ex_nan ex_held_world
       = Some (Inl (ValueError ''Invalid value NaN (not a number)''), ex_nan,
               ex_held_world\<lparr>trace := [SysOpen ''/srv/job/job.lock'', SysOpen ''/srv/job/job.lock'']\<rparr>)
   \<and> acquire id 50 ex_patient ex_held_world = None
   \<and> acquire ex_reset 50 ex_held ex_held_world = None
   \<and> acquire ex_thief 3 ex_held ex_held_world
       = Some (Inr (), ex_held\<lparr>fd := Some 2\<rparr>,
               ex_held_world\<lparr>fdtab := [(2, ''/srv/job/job.lock''), (1, ''/srv/job/job.lock'')],
                 clock := 1 / 20,
                 trace := [SysOpen ''/srv/job/job.lock'', SysOpen ''/srv/job/job.lock'',
                           SysSleep (1 / 20), SysOpen ''/srv/job/job.lock'']\<rparr>)"
  by code_simp

text \<open>
  C10 (amended). Take an instance that holds the lock, in a reachable state, with other
  actors that do not delete its lock file. Then no direct call to \<open>acquire\<close> succeeds,
  whatever the fuel, the timeout and the delay: every create fails with \<open>EEXIST\<close>.
  How the call ends depends on the two numbers.
  \<^item> With a finite timeout \<open>t\<close> and a finite delay \<open>d\<close> that \<^verbatim>\<open>time.sleep\<close> accepts
    (not negative, at most 2^63 - 1 nanoseconds), and a clock that moves forward by at
    least \<open>d + g > 0\<close> on every turn of the loop, every call given more than
    \<open>\<lceil>t / (d + g)\<rceil>\<close> turns ends in the zero-timeout failure when \<open>t = 0\<close> and in
    the timeout failure otherwise, with the instance unchanged.
  \<^item> With a timeout of \<^verbatim>\<open>-inf\<close> it ends in the timeout failure on its first turn.
  \<^item> With a timeout of \<^verbatim>\<open>inf\<close> or \<^verbatim>\<open>nan\<close> and an accepted delay it never ends.
  \<^item> With a nonzero timeout that has not passed on the first turn and a delay that
    \<^verbatim>\<open>time.sleep\<close> rejects, it ends on the first turn in the error of
    \<^verbatim>\<open>time.sleep\<close>.
\<close>

theorem held_lock_not_reentrant:
  assumes "reach (self, w)" and "is_locked self" and "tame env"
  shows "(\<forall>n s' w'. acquire env n self w \<noteq> Some (Inr (), s', w'))
       \<and> (timeout self = PyNum t \<and> delay self = PyNum d \<and> 0 \<le> d \<and> sleep_ns d \<le> 2 ^ 63 - 1
           \<and> (\<forall>w. clock w + g \<le> clock (env w)) \<and> 0 < d + g \<longrightarrow>
          (\<forall>n > nat \<lceil>t / (d + g)\<rceil>. \<exists>w'. acquire env n self w =
            Some (Inl (if t = 0
                       then DirLockException (''Could not acquire lock on '' @ directory self)
                       else DirLockException ''Timeout occurred.''), self, w')))
       \<and> (timeout self = PyNegInf \<longrightarrow>
          (\<forall>n. acquire env (Suc n) self w =
            Some (Inl (DirLockException ''Timeout occurred.''), self,
                  w\<lparr>trace := trace w @ [SysOpen (lockfile self)]\<rparr>)))
       \<and> ((timeout self = PyInf \<or> timeout self = PyNaN)
           \<and> delay self = PyNum d \<and> 0 \<le> d \<and> sleep_ns d \<le> 2 ^ 63 - 1 \<longrightarrow>
          (\<forall>n. acquire env n self w = None))
       \<and> (timeout self \<noteq> PyNum 0 \<and> \<not> py_ge 0 (timeout self)
           \<and> fst (time_sleep env (delay self) (snd (os_open (lockfile self) w))) = Inl x \<longrightarrow>
          (\<forall>n. acquire env (Suc n) self w =
            Some (Inl x, self, w\<lparr>trace := trace w @ [SysOpen (lockfile self)]\<rparr>)))"
proof -
  from assms(1) have inv: "lock_inv self w"
    using reach_strong_inv [of "(self, w)"] by (simp add: strong_inv_def)
  note o = held_open_fails [OF inv assms(2)]
  have never: "\<forall>n s' w'. acquire env n self w \<noteq> Some (Inr (), s', w')"
    unfolding acquire_def using held_never_acquired [OF assms(3) inv assms(2)] by blast
  have ends: "\<exists>w'. acquire env n self w =
            Some (Inl (if t = 0
                       then DirLockException (''Could not acquire lock on '' @ directory self)
                       else DirLockException ''Timeout occurred.''), self, w')"
    if c: "timeout self = PyNum t \<and> delay self = PyNum d \<and> 0 \<le> d \<and> sleep_ns d \<le> 2 ^ 63 - 1
           \<and> (\<forall>w. clock w + g \<le> clock (env w)) \<and> 0 < d + g"
      and n: "nat \<lceil>t / (d + g)\<rceil> < n" for n
  proof -
    from c have to: "timeout self = PyNum t" and dl: "delay self = PyNum d" "0 \<le> d"
      "sleep_ns d \<le> 2 ^ 63 - 1" and gain: "\<forall>w. clock w + g \<le> clock (env w)"
      and pos: "0 < d + g" by simp_all
    from n obtain m where m: "n = Suc m" by (cases n) auto
    show ?thesis
    proof (cases "t = 0")
      case True
      with to show ?thesis by (simp add: m acquire_def o py_not_def)
    next
      case False
      from n m have "nat \<lceil>t / (d + g)\<rceil> \<le> m" by simp
      with pos have "t \<le> of_nat m * (d + g)" by (rule fuel_bound)
      then have "t - (clock w - time_time w) \<le> of_nat m * (d + g)"
        by (simp add: time_time_def)
      from held_times_out [OF assms(3) gain to False dl pos assms(2) inv this]
      show ?thesis using False by (simp add: m acquire_def)
    qed
  qed
  have neginf: "acquire env (Suc n) self w =
            Some (Inl (DirLockException ''Timeout occurred.''), self,
                  w\<lparr>trace := trace w @ [SysOpen (lockfile self)]\<rparr>)"
    if "timeout self = PyNegInf" for n
    using that by (simp add: acquire_def o py_not_def)
  have forever: "acquire env n self w = None"
    if c: "(timeout self = PyInf \<or> timeout self = PyNaN)
           \<and> delay self = PyNum d \<and> 0 \<le> d \<and> sleep_ns d \<le> 2 ^ 63 - 1" for n
  proof -
    from c have 1: "timeout self = PyInf \<or> timeout self = PyNaN"
      and 2: "delay self = PyNum d" "0 \<le> d" "sleep_ns d \<le> 2 ^ 63 - 1" by simp_all
    show ?thesis unfolding acquire_def
      by (rule held_forever [OF assms(3) 1 2 assms(2) inv])
  qed
  have rejected: "acquire env (Suc n) self w =
            Some (Inl x, self, w\<lparr>trace := trace w @ [SysOpen (lockfile self)]\<rparr>)"
    if c: "timeout self \<noteq> PyNum 0 \<and> \<not> py_ge 0 (timeout self)
           \<and> fst (time_sleep env (delay self) (snd (os_open (lockfile self) w))) = Inl x" for n
  proof -
    from c o have "fst (time_sleep env (delay self)
                     (w\<lparr>trace := trace w @ [SysOpen (lockfile self)]\<rparr>)) = Inl x" by simp
    then have "time_sleep env (delay self) (w\<lparr>trace := trace w @ [SysOpen (lockfile self)]\<rparr>)
                 = (Inl x, w\<lparr>trace := trace w @ [SysOpen (lockfile self)]\<rparr>)"
      by (rule sleep_failed)
    with c show ?thesis by (simp add: acquire_def o py_not_def time_time_def)
  qed
  from never ends neginf forever rejected show ?thesis by blast
qed

text \<open>
  The held default lock (timeout 10, delay 1/20), left alone: a second \<open>acquire\<close> never
  succeeds, and with 201 turns it ends in the timeout failure.
\<close>

theorem held_lock_not_reentrant_witness:
  "reach (ex_held, ex_held_world) \<and> is_locked ex_held \<and> tame id
   \<and> timeout ex_held = PyNum 10 \<and> delay ex_held = PyNum (1 / 20)
   \<and> (0::rat) \<le> 1 / 20 \<and> sleep_ns (1 / 20) \<le> 2 ^ 63 - 1
   \<and> (\<forall>w. clock w + 0 \<le> clock (id w)) \<and> (0::rat) < 1 / 20 + 0
   \<and> nat \<lceil>(10::rat) / (1 / 20 + 0)\<rceil> < 201
   \<and> (\<forall>n s' w'. acquire id n ex_held ex_held_world \<noteq> Some (Inr (), s', w'))
   \<and> (\<exists>w'. acquire id 201 ex_held ex_held_world
              = Some (Inl (DirLockException ''Timeout occurred.''), ex_held, w'))"
proof -
  have l: "is_locked ex_held" by code_simp
  have c: "\<forall>w. clock w + 0 \<le> clock (id w)" by simp
  have t: "timeout ex_held = PyNum 10" and d: "delay ex_held = PyNum (1 / 20)" by code_simp+
  have d0: "(0::rat) \<le> 1 / 20" and d1: "(0::rat) < 1 / 20 + 0" by simp_all
  have s: "sleep_ns (1 / 20) \<le> 2 ^ 63 - 1" by code_simp
  have b: "nat \<lceil>(10::rat) / (1 / 20 + 0)\<rceil> < 201" by simp
  note r = held_lock_not_reentrant [OF ex_reach l tame_id,
      where t = 10 and d = "1 / 20" and g = 0]
  from t d d0 s c d1 have p: "timeout ex_held = PyNum 10 \<and> delay ex_held = PyNum (1 / 20)
      \<and> (0::rat) \<le> 1 / 20 \<and> sleep_ns (1 / 20) \<le> 2 ^ 63 - 1
      \<and> (\<forall>w. clock w + 0 \<le> clock (id w)) \<and> (0::rat) < 1 / 20 + 0" by blast
  from r [THEN conjunct2, THEN conjunct1, rule_format, OF p b] obtain v where
    "acquire id 201 ex_held ex_held_world =
       Some (Inl (if (10::rat) = 0
                  then DirLockException (''Could not acquire lock on '' @ directory ex_held)
                  else DirLockException ''Timeout occurred.''), ex_held, v)" ..
  then have "acquire id 201 ex_held ex_held_world
               = Some (Inl (DirLockException ''Timeout occurred.''), ex_held, v)"
    by simp
  then have e: "\<exists>w'. acquire id 201 ex_held ex_held_world
              = Some (Inl (DirLockException ''Timeout occurred.''), ex_held, w')" ..
  from r have a: "\<forall>n s' w'. acquire id n ex_held ex_held_world \<noteq> Some (Inr (), s', w')"
    by (rule conjunct1)
  from a e ex_reach l tame_id t d d0 s c d1 b show ?thesis by blast
qed

end
